theory Spec2Isabelle
  imports Complex_Main
begin

section \<open>Conventions\<close>

text \<open>
  A JavaScript string is a sequence of UTF-16 code units and \<open>length\<close> counts them.
  The model writes a code unit as a \<^typ>\<open>char\<close>; every function below only compares
  units and counts them. The one non-ASCII unit that the code itself writes, the em dash
  U+2014, is represented by the single character \<open>CHR 0x97\<close>, so that lengths agree.
  Token counts, budgets and other whole JavaScript numbers are integers. A value that may
  be \<open>null\<close> or \<open>undefined\<close> is an \<open>option\<close>, and an awaited call that may reject
  returns \<open>None\<close> or \<open>Inl\<close> for the rejection.
\<close>

section \<open>LLM gateway: request parameters (src/llm/api.ts)\<close>

datatype Phase = Planner | Builder | Fixer | Reflect | Memory

record PhaseConfig =
  model :: string
  maxTokens :: int

text \<open>
  The fields of \<open>config\<close> that the modelled functions read; \<open>thinkingBudget\<close> is
  \<open>config.context.thinkingBudget\<close>.
\<close>

record Config =
  phases :: "Phase \<Rightarrow> PhaseConfig"
  thinkingBudget :: int
  memoryTokenBudget :: int

text \<open>
  \<open>PHASE_EXTRAS\<close> holds prompt texts and tool lists that live in other modules
  (\<open>llm/prompts.ts\<close>, \<open>tools/definitions.ts\<close>); they are a parameter here. An absent
  \<open>tools\<close> entry is \<open>None\<close>.
\<close>

record 't PhaseExtras =
  system :: string
  tools :: "'t list option"

record TextBlockParam =
  text' :: string
  cache_control :: bool

text \<open>
  What the collaborators awaited by \<open>buildParams\<close> returned: the working context, the
  codebase context, the coverage summary (\<open>null\<close> is \<open>None\<close>), the git log, the memory
  context and the list of unused functions.
\<close>

record Awaited =
  workingContext :: string
  codebaseContext :: string
  coverage :: "string option"
  gitLog :: string
  memoryContext :: string
  unusedFunctions :: "string option"

text \<open>
  The request. \<open>thinking = Some b\<close> stands for
  \<open>thinking: { type: 'enabled', budget_tokens: b }\<close>, and \<open>None\<close> for a request without the
  \<open>thinking\<close> property; likewise \<open>p_tools\<close>.
\<close>

record ('m, 't) MessageCreateParams =
  p_model :: string
  max_tokens :: int
  p_system :: "TextBlockParam list"
  p_messages :: "'m list"
  p_tools :: "'t list option"
  thinking :: "int option"

definition THINKING_PHASES :: "Phase set" where
  "THINKING_PHASES = {Planner, Builder, Fixer, Reflect}"

definition MIN_OUTPUT_TOKENS :: int where
  "MIN_OUTPUT_TOKENS = 2048"

text \<open>JavaScript truthiness of a value that is a string, \<open>null\<close> or \<open>undefined\<close>.\<close>

fun truthy :: "string option \<Rightarrow> bool" where
  "truthy None = False"
| "truthy (Some s) = (s \<noteq> [])"

definition plain :: "string \<Rightarrow> TextBlockParam" where
  "plain s = \<lparr>text' = s, cache_control = False\<rparr>"

definition buildParams ::
  "Config \<Rightarrow> (Phase \<Rightarrow> 't PhaseExtras) \<Rightarrow> Awaited \<Rightarrow> Phase \<Rightarrow> 'm list \<Rightarrow> 't list option
    \<Rightarrow> ('m, 't) MessageCreateParams" where
  "buildParams config PHASE_EXTRAS aw phase messages tools' =
    (let useContext = (phase \<noteq> Memory);
         workingContext' = (if useContext then Some (workingContext aw) else None);
         pc = phases config phase;
         extras = PHASE_EXTRAS phase;
         system0 =
           (if phase = Builder \<or> phase = Fixer \<or> phase = Planner
            then [plain (system extras),
                  \<lparr>text' = ''\<newline>\<newline>'' @ codebaseContext aw, cache_control = True\<rparr>]
            else [\<lparr>text' = system extras, cache_control = True\<rparr>]);
         system1 =
           (if phase = Planner
            then system0
              @ (if truthy (coverage aw)
                 then [plain (''\<newline>\<newline>## Code Coverage (last CI run on main)\<newline>''
                         @ the (coverage aw))]
                 else [])
              @ [plain (''\<newline>\<newline>Recent git log:\<newline>'' @ gitLog aw)]
              @ [plain (''\<newline>\<newline>'' @ memoryContext aw)]
              @ (if truthy (unusedFunctions aw)
                 then [plain (''\<newline>\<newline>## Unused Functions\<newline>''
                         @ the (unusedFunctions aw))]
                 else [])
            else system0);
         system2 =
           (if truthy workingContext'
            then system1 @ [plain (''\<newline>\<newline>'' @ the workingContext')]
            else system1);
         allTools = (case tools extras of None \<Rightarrow> [] | Some ts \<Rightarrow> ts)
                    @ (case tools' of None \<Rightarrow> [] | Some ts \<Rightarrow> ts);
         useThinking = (phase \<in> THINKING_PHASES);
         thinkingBudget' = min (thinkingBudget config) (maxTokens pc - MIN_OUTPUT_TOKENS);
         effectiveMaxTokens = (if useThinking then maxTokens pc + thinkingBudget' else maxTokens pc)
     in \<lparr>p_model = model pc,
         max_tokens = effectiveMaxTokens,
         p_system = system2,
         p_messages = messages,
         p_tools = (if allTools \<noteq> [] then Some allTools else None),
         thinking = (if useThinking then Some thinkingBudget' else None)\<rparr>)"

subsection \<open>Stripping thinking signatures\<close>

text \<open>
  A content block is a JavaScript object: its own properties in insertion order, as an
  association list from property name to value.
\<close>

datatype json =
    JString string
  | JNumber int
  | JBool bool
  | JNull
  | JArray "json list"
  | JObject "(string \<times> json) list"

type_synonym ContentBlock = "(string \<times> json) list"

definition stripThinkingSignatures :: "ContentBlock list \<Rightarrow> ContentBlock list" where
  "stripThinkingSignatures content =
     map (\<lambda>block.
            if map_of block ''type'' = Some (JString ''thinking'')
            then filter (\<lambda>(k, v). k \<noteq> ''signature'') block
            else block) content"

section \<open>Memory service (src/agents/memory.ts)\<close>

datatype IdeaStatus = Pending | Attempted | Completed

text \<open>
  A document of the Memory collection. An absent \<open>ideaStatus\<close> or \<open>ideaContext\<close> is
  \<open>None\<close>; \<open>createdAt\<close> is the creation time in milliseconds.
\<close>

record MemoryItem =
  mid :: string
  content :: string
  summary :: string
  pinned :: bool
  ideaStatus :: "IdeaStatus option"
  ideaContext :: "string option"
  createdAt :: nat

text \<open>The collection, in insertion order.\<close>

type_synonym Store = "MemoryItem list"

text \<open>
  \<open>MemoryModel.create\<close>: the database assigns the id and the creation time, given here
  as \<open>newId\<close> and \<open>now\<close>; an id that is already present is refused (duplicate key).
\<close>

definition create :: "Store \<Rightarrow> MemoryItem \<Rightarrow> Store option" where
  "create store doc = (if mid doc \<in> mid ` set store then None else Some (store @ [doc]))"

text \<open>
  \<open>MemoryModel.findById(id)\<close>. The field \<open>mid\<close> of a document is its object id as the
  database renders it (\<open>${m._id}\<close>). The driver casts the string it is given to an object
  id before it searches: \<open>castObjectId\<close> is that cast, from a string to the rendering of
  the object id it denotes, or \<open>None\<close> when the string denotes none and the call is rejected
  with a \<open>CastError\<close>. Several strings may denote the same object id. The result is
  \<open>None\<close> for the rejection, \<open>Some None\<close> when no document has the id.
\<close>

definition findById ::
  "(string \<Rightarrow> string option) \<Rightarrow> Store \<Rightarrow> string \<Rightarrow> MemoryItem option option" where
  "findById castObjectId store i =
     map_option (\<lambda>oid. find (\<lambda>m. mid m = oid) store) (castObjectId i)"

text \<open>
  An instance of the cast, used in the examples: a string of 24 hexadecimal digits, in
  either case, denotes the object id that is rendered with the same digits in lower case.
\<close>

definition isHexDigit :: "char \<Rightarrow> bool" where
  "isHexDigit c = (c \<in> set ''0123456789abcdefABCDEF'')"

definition lowerHexDigit :: "char \<Rightarrow> char" where
  "lowerHexDigit c =
     (if c = CHR ''A'' then CHR ''a'' else if c = CHR ''B'' then CHR ''b''
      else if c = CHR ''C'' then CHR ''c'' else if c = CHR ''D'' then CHR ''d''
      else if c = CHR ''E'' then CHR ''e'' else if c = CHR ''F'' then CHR ''f'' else c)"

definition castHex :: "string \<Rightarrow> string option" where
  "castHex s =
     (if length s = 24 \<and> list_all isHexDigit s then Some (map lowerHexDigit s) else None)"

text \<open>\<open>memory.save()\<close>: the document with this id is replaced.\<close>

definition save :: "Store \<Rightarrow> MemoryItem \<Rightarrow> Store" where
  "save store doc = map (\<lambda>m. if mid m = mid doc then doc else m) store"

text \<open>
  \<open>.sort({ createdAt: -1 })\<close>: newest first. The database leaves the order of documents
  with equal creation time open; here the one inserted later comes first.
\<close>

definition sortDesc :: "MemoryItem list \<Rightarrow> MemoryItem list" where
  "sortDesc ms = rev (sort_key createdAt ms)"

text \<open>
  The store operations take the summary that \<open>summarizeMemory\<close> (an LLM call) returned
  and the id and time that the database assigned. Each returns the new store and the
  message given back to the caller; \<open>None\<close> is a rejected insert.
\<close>

definition storePastMemory :: "Store \<Rightarrow> string \<Rightarrow> nat \<Rightarrow> string \<Rightarrow> string \<Rightarrow> Store option" where
  "storePastMemory store newId now summary' content' =
     create store \<lparr>mid = newId, content = content', summary = summary', pinned = False,
                   ideaStatus = None, ideaContext = None, createdAt = now\<rparr>"

definition storePinnedMemory ::
  "Store \<Rightarrow> string \<Rightarrow> nat \<Rightarrow> string \<Rightarrow> string \<Rightarrow> (Store \<times> string) option" where
  "storePinnedMemory store newId now summary' content' =
     map_option (\<lambda>s. (s, ''Note saved ('' @ newId @ ''): '' @ summary'))
       (create store \<lparr>mid = newId, content = content', summary = summary', pinned = True,
                      ideaStatus = None, ideaContext = None, createdAt = now\<rparr>)"

definition storeIdea ::
  "Store \<Rightarrow> string \<Rightarrow> nat \<Rightarrow> string \<Rightarrow> string \<Rightarrow> string \<Rightarrow> (Store \<times> string) option" where
  "storeIdea store newId now summary' description context' =
     map_option (\<lambda>s. (s, ''Idea saved ('' @ newId @ ''): '' @ summary'))
       (create store \<lparr>mid = newId, content = description, summary = summary', pinned = True,
                      ideaStatus = Some Pending, ideaContext = Some context', createdAt = now\<rparr>)"

text \<open>
  \<open>unpinMemory\<close> and \<open>updateIdeaStatus\<close> return the new store and the message, or \<open>None\<close>
  when \<open>findById\<close> rejects the id.
\<close>

definition unpinMemory ::
  "(string \<Rightarrow> string option) \<Rightarrow> Store \<Rightarrow> string \<Rightarrow> (Store \<times> string) option" where
  "unpinMemory castObjectId store i =
     (case findById castObjectId store i of
        None \<Rightarrow> None
      | Some None \<Rightarrow>
          Some (store, ''No note found with id '' @ [CHR 0x22] @ i @ [CHR 0x22] @ ''.'')
      | Some (Some memory) \<Rightarrow>
          if \<not> pinned memory then Some (store, ''That memory is not a note.'')
          else Some (save store (memory\<lparr>pinned := False\<rparr>),
                     ''Note dismissed: '' @ summary memory))"

text \<open>The \<open>status\<close> parameter has the type \<open>'attempted' | 'completed'\<close>.\<close>

datatype NewStatus = attempted | completed

fun statusText :: "NewStatus \<Rightarrow> string" where
  "statusText attempted = ''attempted''"
| "statusText completed = ''completed''"

fun toIdeaStatus :: "NewStatus \<Rightarrow> IdeaStatus" where
  "toIdeaStatus attempted = Attempted"
| "toIdeaStatus completed = Completed"

definition updateIdeaStatus ::
  "(string \<Rightarrow> string option) \<Rightarrow> Store \<Rightarrow> string \<Rightarrow> NewStatus \<Rightarrow> (Store \<times> string) option" where
  "updateIdeaStatus castObjectId store i status =
     (case findById castObjectId store i of
        None \<Rightarrow> None
      | Some None \<Rightarrow>
          Some (store, ''No memory found with id '' @ [CHR 0x22] @ i @ [CHR 0x22] @ ''.'')
      | Some (Some memory) \<Rightarrow>
          if ideaStatus memory = None
          then Some (store, ''Memory '' @ [CHR 0x22] @ i @ [CHR 0x22] @ '' is not an idea.'')
          else
            let memory1 = memory\<lparr>ideaStatus := Some (toIdeaStatus status)\<rparr>;
                memory2 = (if status = completed then memory1\<lparr>pinned := False\<rparr> else memory1)
            in Some (save store memory2,
                     ''Idea marked as '' @ statusText status @ '': '' @ summary memory2))"

subsection \<open>Context assembly\<close>

definition estimateTokens :: "string \<Rightarrow> nat" where
  "estimateTokens txt = (length txt + 3) div 4"

text \<open>\<open>Array.prototype.join\<close> on strings.\<close>

fun join :: "string \<Rightarrow> string list \<Rightarrow> string" where
  "join sep [] = []"
| "join sep [x] = x"
| "join sep (x # y # ys) = x @ sep @ join sep (y # ys)"

definition noteLine :: "MemoryItem \<Rightarrow> string" where
  "noteLine m = ''- ('' @ mid m @ '') '' @ summary m"

definition ideaLine :: "MemoryItem \<Rightarrow> string" where
  "ideaLine m =
     (let statusBadge = (if ideaStatus m = Some Pending then ''[PENDING]'' else ''[ATTEMPTED]'');
          context' = (if truthy (ideaContext m)
                      then [CHR '' '', CHR 0x97, CHR '' ''] @ the (ideaContext m) else [])
      in ''- '' @ statusBadge @ '' ('' @ mid m @ '') '' @ summary m @ context')"

text \<open>
  The date shown in a past line is the first 19 characters of \<open>toISOString()\<close> with the
  \<open>T\<close> replaced by a space; the formatting function is the parameter \<open>fmt\<close>.
\<close>

definition pastLine :: "(nat \<Rightarrow> string) \<Rightarrow> MemoryItem \<Rightarrow> string" where
  "pastLine fmt m = ''- ('' @ mid m @ '') ['' @ fmt (createdAt m) @ ''] '' @ summary m"

text \<open>The three queries of \<open>getContext\<close>.\<close>

definition pinnedMemories :: "Store \<Rightarrow> MemoryItem list" where
  "pinnedMemories store = sortDesc (filter pinned store)"

definition notes' :: "Store \<Rightarrow> MemoryItem list" where
  "notes' store = filter (\<lambda>m. ideaStatus m = None) (pinnedMemories store)"

definition ideas :: "Store \<Rightarrow> MemoryItem list" where
  "ideas store = filter (\<lambda>m. ideaStatus m \<noteq> None) (pinnedMemories store)"

definition recent :: "Store \<Rightarrow> MemoryItem list" where
  "recent store = sortDesc (filter (\<lambda>m. \<not> pinned m \<and> ideaStatus m = None) store)"

definition notesSection :: "Store \<Rightarrow> string" where
  "notesSection store = ''## Notes to self\<newline>'' @ join ''\<newline>'' (map noteLine (notes' store))"

definition ideasSection :: "Store \<Rightarrow> string" where
  "ideasSection store = ''## Ideas\<newline>'' @ join ''\<newline>'' (map ideaLine (ideas store))"

text \<open>
  The loop over \<open>recent\<close>: it stops at the first line that would take the running total
  over the budget, and returns the lines pushed so far.
\<close>

fun pastLoop :: "(nat \<Rightarrow> string) \<Rightarrow> int \<Rightarrow> int \<Rightarrow> int \<Rightarrow> MemoryItem list \<Rightarrow> string list" where
  "pastLoop fmt budget tokensUsed pastTokens [] = []"
| "pastLoop fmt budget tokensUsed pastTokens (m # ms) =
     (let line = pastLine fmt m;
          lineTokens = int (estimateTokens (line @ ''\<newline>''))
      in if tokensUsed + pastTokens + lineTokens > budget then []
         else line # pastLoop fmt budget tokensUsed (pastTokens + lineTokens) ms)"

text \<open>
  The body of \<open>getContext\<close> up to the end of the loop: the value of \<open>tokensUsed\<close> when
  \<open>remaining\<close> is computed, the sections pushed so far and the lines of the past section.
  \<open>budget\<close> is \<open>config.memoryTokenBudget\<close>.
\<close>

definition assemble :: "int \<Rightarrow> (nat \<Rightarrow> string) \<Rightarrow> Store \<Rightarrow> int \<times> string list \<times> string list" where
  "assemble budget fmt store =
     (let (tokensUsed1, sections1) =
            (if notes' store \<noteq> []
             then (int (estimateTokens (notesSection store)), [notesSection store])
             else (0, []));
          (tokensUsed2, sections2) =
            (if ideas store \<noteq> []
             then (let ideasTokens = int (estimateTokens (ideasSection store))
                   in if tokensUsed1 + ideasTokens \<le> budget
                      then (tokensUsed1 + ideasTokens, sections1 @ [ideasSection store])
                      else (tokensUsed1, sections1))
             else (tokensUsed1, sections1));
          remaining = budget - tokensUsed2;
          lines = (if remaining > 0
                   then pastLoop fmt budget tokensUsed2 (int (estimateTokens ''## Past\<newline>''))
                          (recent store)
                   else [])
      in (tokensUsed2, sections2, lines))"

definition pastSection :: "string list \<Rightarrow> string" where
  "pastSection lines = ''## Past\<newline>'' @ join ''\<newline>'' lines"

definition getContext :: "int \<Rightarrow> (nat \<Rightarrow> string) \<Rightarrow> Store \<Rightarrow> string" where
  "getContext budget fmt store =
     (let (tokensUsed, sections2, lines) = assemble budget fmt store;
          sections = (if lines \<noteq> [] then sections2 @ [pastSection lines] else sections2)
      in if sections = [] then ''No memories yet. This is your first run.''
         else join ''\<newline>\<newline>'' sections)"

subsection \<open>Sequences of memory operations\<close>

text \<open>
  One call of a memory operation, with what the database and the summarizer supplied
  (\<open>newId\<close>, \<open>now\<close>, \<open>summary\<close>). A rejected call leaves the store as it was.
\<close>

datatype MemOp =
    StorePast string nat string string
  | StorePinned string nat string string
  | StoreIdea string nat string string string
  | Unpin string
  | UpdateIdeaStatus string NewStatus

fun applyOp :: "(string \<Rightarrow> string option) \<Rightarrow> Store \<Rightarrow> MemOp \<Rightarrow> Store" where
  "applyOp castObjectId store (StorePast newId now summary' content') =
     (case storePastMemory store newId now summary' content' of None \<Rightarrow> store | Some s \<Rightarrow> s)"
| "applyOp castObjectId store (StorePinned newId now summary' content') =
     (case storePinnedMemory store newId now summary' content' of
        None \<Rightarrow> store | Some (s, _) \<Rightarrow> s)"
| "applyOp castObjectId store (StoreIdea newId now summary' description context') =
     (case storeIdea store newId now summary' description context' of
        None \<Rightarrow> store | Some (s, _) \<Rightarrow> s)"
| "applyOp castObjectId store (Unpin i) =
     (case unpinMemory castObjectId store i of None \<Rightarrow> store | Some (s, _) \<Rightarrow> s)"
| "applyOp castObjectId store (UpdateIdeaStatus i status) =
     (case updateIdeaStatus castObjectId store i status of None \<Rightarrow> store | Some (s, _) \<Rightarrow> s)"

definition runOps :: "(string \<Rightarrow> string option) \<Rightarrow> MemOp list \<Rightarrow> Store \<Rightarrow> Store" where
  "runOps castObjectId ops store = foldl (applyOp castObjectId) store ops"

text \<open>
  An operation that takes the object id \<open>oid\<close> out of the pinned items: \<open>unpin\<close>, or
  \<open>updateIdeaStatus\<close> to completed, called with a string that denotes \<open>oid\<close>.
\<close>

fun dismisses :: "(string \<Rightarrow> string option) \<Rightarrow> string \<Rightarrow> MemOp \<Rightarrow> bool" where
  "dismisses castObjectId oid (Unpin i) = (castObjectId i = Some oid)"
| "dismisses castObjectId oid (UpdateIdeaStatus i status) =
     (status = completed \<and> castObjectId i = Some oid)"
| "dismisses castObjectId oid other = False"

text \<open>
  The quantity named in the context-budget property of the specification: the largest
  token estimate of the line of a single pinned item (0 when nothing is pinned).
\<close>

definition longestPinnedBlock :: "Store \<Rightarrow> nat" where
  "longestPinnedBlock store =
     fold max (map (\<lambda>m. estimateTokens (if ideaStatus m = None then noteLine m else ideaLine m))
                 (filter pinned store)) 0"

section \<open>Source-control adapter: applying edits (tools/git.ts)\<close>

datatype EditOperation =
    Replace string string string
  | Create string string
  | Delete string

text \<open>
  The files of the working copy, from full path to content. Directories and permissions
  are not modelled: \<open>readFile\<close> and \<open>unlink\<close> fail on a path that holds no file, with
  the message Node gives, and \<open>mkdir\<close> and \<open>writeFile\<close> succeed.
\<close>

type_synonym FS = "string \<rightharpoonup> string"

definition enoent :: "string \<Rightarrow> string \<Rightarrow> string" where
  "enoent syscall path =
     ''ENOENT: no such file or directory, '' @ syscall @ '' '' @ [CHR 0x27] @ path @ [CHR 0x27]"

definition readFile :: "FS \<Rightarrow> string \<Rightarrow> string + string" where
  "readFile fs path = (case fs path of None \<Rightarrow> Inl (enoent ''open'' path) | Some c \<Rightarrow> Inr c)"

definition writeFile :: "FS \<Rightarrow> string \<Rightarrow> string \<Rightarrow> FS" where
  "writeFile fs path data = fs(path \<mapsto> data)"

definition unlink :: "FS \<Rightarrow> string \<Rightarrow> string + FS" where
  "unlink fs path =
     (case fs path of None \<Rightarrow> Inl (enoent ''unlink'' path) | Some c \<Rightarrow> Inr (fs(path := None)))"

text \<open>
  \<open>String.prototype.indexOf(searchString, position)\<close>: the position is clamped to the
  length of the string, and the result is the least index from there on at which the
  search string occurs, or \<open>-1\<close> (here \<open>None\<close>). The empty string occurs at every index
  up to the length.
\<close>

definition occursAt :: "string \<Rightarrow> string \<Rightarrow> nat \<Rightarrow> bool" where
  "occursAt content' s i = (i + length s \<le> length content' \<and> take (length s) (drop i content') = s)"

definition indexOf :: "string \<Rightarrow> string \<Rightarrow> nat \<Rightarrow> nat option" where
  "indexOf content' s position =
     (let start = min position (length content')
      in find (occursAt content' s) [start ..< length content' + 1])"

text \<open>
  One pass of the loop body of \<open>applyEdits\<close>: the new file system and the messages pushed
  to \<open>errors\<close>. \<open>fullPathOf\<close> is \<open>join(config.workspacePath, \<cdot>)\<close>.
\<close>

fun applyEdit :: "(string \<Rightarrow> string) \<Rightarrow> FS \<Rightarrow> EditOperation \<Rightarrow> FS \<times> string list" where
  "applyEdit fullPathOf fs (Replace p oldString newString) =
     (let fullPath = fullPathOf p in
      case readFile fs fullPath of
        Inl message \<Rightarrow> (fs, [''replace '' @ [CHR 0x22] @ p @ [CHR 0x22] @ '': '' @ message])
      | Inr content' \<Rightarrow>
          (case indexOf content' oldString 0 of
             None \<Rightarrow>
               (fs, [''replace '' @ [CHR 0x22] @ p @ [CHR 0x22] @ '': oldString not found in file''])
           | Some index \<Rightarrow>
               (case indexOf content' oldString (index + 1) of
                  Some secondIndex \<Rightarrow>
                    (fs, [''replace '' @ [CHR 0x22] @ p @ [CHR 0x22]
                          @ '': oldString matches multiple locations '' @ [CHR 0x97]
                          @ '' add more context to make it unique''])
                | None \<Rightarrow>
                    (let updated = take index content' @ newString
                                   @ drop (index + length oldString) content'
                     in (writeFile fs fullPath updated, [])))))"
| "applyEdit fullPathOf fs (Create p content') =
     (let fullPath = fullPathOf p in (writeFile fs fullPath content', []))"
| "applyEdit fullPathOf fs (Delete p) =
     (let fullPath = fullPathOf p in
      case unlink fs fullPath of
        Inl message \<Rightarrow> (fs, [''delete '' @ [CHR 0x22] @ p @ [CHR 0x22] @ '': '' @ message])
      | Inr fs' \<Rightarrow> (fs', []))"

fun applyEditsLoop ::
  "(string \<Rightarrow> string) \<Rightarrow> FS \<Rightarrow> string list \<Rightarrow> EditOperation list \<Rightarrow> FS \<times> string list" where
  "applyEditsLoop fullPathOf fs errors [] = (fs, errors)"
| "applyEditsLoop fullPathOf fs errors (op # operations) =
     (case applyEdit fullPathOf fs op of
        (fs', pushed) \<Rightarrow> applyEditsLoop fullPathOf fs' (errors @ pushed) operations)"

text \<open>
  \<open>applyEdits\<close> returns the file system it leaves behind and either the message of the
  error it throws (\<open>Inl\<close>) or nothing.
\<close>

definition applyEdits :: "(string \<Rightarrow> string) \<Rightarrow> FS \<Rightarrow> EditOperation list \<Rightarrow> FS \<times> (string + unit)" where
  "applyEdits fullPathOf fs operations =
     (case applyEditsLoop fullPathOf fs [] operations of
        (fs', errors) \<Rightarrow>
          if errors \<noteq> []
          then (fs', Inl (''Edit operations failed:\<newline>'' @ join ''\<newline>'' errors))
          else (fs', Inr ()))"

text \<open>The file system on which the \<open>k\<close>-th operation of a call runs.\<close>

definition fsBefore :: "(string \<Rightarrow> string) \<Rightarrow> FS \<Rightarrow> EditOperation list \<Rightarrow> nat \<Rightarrow> FS" where
  "fsBefore fullPathOf fs operations k =
     foldl (\<lambda>f op. fst (applyEdit fullPathOf f op)) fs (take k operations)"

section \<open>Memory service: the fallback of recall (src/agents/memory.ts)\<close>

text \<open>
  \<open>query.replace(/[.*+?^${}()|[\]\\]/g, '\\$&')\<close>: every character of the class is
  replaced by a backslash followed by itself.
\<close>

definition backslash :: char where
  "backslash = CHR 0x5C"

definition regexSpecial :: "char \<Rightarrow> bool" where
  "regexSpecial c = (c \<in> set (''.*+?^${}()|[]'' @ [backslash]))"

definition escapeRegex :: "string \<Rightarrow> string" where
  "escapeRegex query = concat (map (\<lambda>c. if regexSpecial c then [backslash, c] else [c]) query)"

text \<open>
  The regular expressions of ECMAScript, as far as the fallback needs them. A
  \<open>SyntaxCharacter\<close> is one of \<open>^ $ \ . * + ? ( ) [ ] { } |\<close>. A pattern character
  (any character that is not a syntax character) matches itself, and a backslash followed
  by a syntax character is an identity escape that matches that character. \<open>literalOf\<close>
  reads a pattern made of these two forms only and returns the string it matches; it
  returns \<open>None\<close> for a pattern that uses any other construct, which may match something
  else or be rejected with a \<open>SyntaxError\<close>.
\<close>

definition syntaxCharacter :: "char \<Rightarrow> bool" where
  "syntaxCharacter c = (c \<in> set (''^$'' @ [backslash] @ ''.*+?()[]{}|''))"

fun literalOf :: "string \<Rightarrow> string option" where
  "literalOf [] = Some []"
| "literalOf [c] = (if syntaxCharacter c then None else Some [c])"
| "literalOf (c # d # rest) =
     (if c = backslash
      then (if syntaxCharacter d then map_option ((#) d) (literalOf rest) else None)
      else if syntaxCharacter c then None
      else map_option ((#) c) (literalOf (d # rest)))"

text \<open>
  \<open>new RegExp(pattern, 'i').test(s)\<close> for such a pattern: some substring of \<open>s\<close> equals
  the literal up to case. \<open>canonicalize\<close> is the case folding of the engine.
\<close>

definition matchesIgnoringCase :: "(char \<Rightarrow> char) \<Rightarrow> string \<Rightarrow> string \<Rightarrow> bool" where
  "matchesIgnoringCase canonicalize lit s =
     list_ex (occursAt (map canonicalize s) (map canonicalize lit)) [0 ..< length s + 1]"

definition regexTest :: "(char \<Rightarrow> char) \<Rightarrow> string \<Rightarrow> string \<Rightarrow> bool option" where
  "regexTest canonicalize pattern s =
     map_option (\<lambda>lit. matchesIgnoringCase canonicalize lit s) (literalOf pattern)"

text \<open>
  The second query of \<open>recall\<close>: the documents whose summary or content matches the
  regular expression built from the escaped query, newest first, at most five. \<open>None\<close>:
  the pattern is outside the fragment above.
\<close>

definition regexFallback :: "(char \<Rightarrow> char) \<Rightarrow> Store \<Rightarrow> string \<Rightarrow> MemoryItem list option" where
  "regexFallback canonicalize store query =
     (let escaped = escapeRegex query in
      case literalOf escaped of
        None \<Rightarrow> None
      | Some lit \<Rightarrow>
          Some (take 5 (sortDesc (filter
            (\<lambda>m. matchesIgnoringCase canonicalize lit (summary m)
                 \<or> matchesIgnoringCase canonicalize lit (content m)) store))))"

text \<open>
  \<open>recall\<close>. The relevance-ranked \<open>$text\<close> search of the database is the parameter
  \<open>textSearch\<close>.
\<close>

definition recallLine :: "(nat \<Rightarrow> string) \<Rightarrow> MemoryItem \<Rightarrow> string" where
  "recallLine fmt m = ''**'' @ mid m @ ''** ['' @ fmt (createdAt m) @ '']\<newline>'' @ content m"

definition recall ::
  "(string \<Rightarrow> Store \<Rightarrow> MemoryItem list) \<Rightarrow> (char \<Rightarrow> char) \<Rightarrow> (nat \<Rightarrow> string) \<Rightarrow> Store \<Rightarrow> string
     \<Rightarrow> string option" where
  "recall textSearch canonicalize fmt store query =
     (let memories = take 5 (textSearch query store) in
      case (if memories = [] then regexFallback canonicalize store query else Some memories) of
        None \<Rightarrow> None
      | Some memories' \<Rightarrow>
          Some (if memories' = []
                then ''No memories matching '' @ [CHR 0x22] @ query @ [CHR 0x22] @ ''.''
                else join ''\<newline>\<newline>---\<newline>\<newline>'' (map (recallLine fmt) memories')))"

section \<open>Cost of an exchange (models/Generated.ts)\<close>

text \<open>
  Modelled from the spec: \<open>computeCost\<close> of \<open>models/Generated.ts\<close> and the pricing table it
  reads are not among the sources; only its tests (\<open>models/Generated.test.ts\<close>) and its call
  in \<open>recordGenerated\<close> are. The specification says that the cost is computed from a
  per-model pricing table (input, output, 5-minute cache write, 1-hour cache write, cache
  read), that a default entry applies to unknown models, and that batch-submitted requests
  receive a 50% multiplier on the final cost. The tests fix the rest: prices are per
  million tokens, the cache reads and cache writes are part of \<open>input_tokens\<close> and are
  priced at their own rates, and cache writes count as 5-minute writes unless the
  \<open>cache_creation\<close> breakdown is given. Amounts are exact rationals here, not floating-point
  numbers.
\<close>

record ModelPricing =
  inputPrice :: rat
  outputPrice :: rat
  cacheWrite5mPrice :: rat
  cacheWrite1hPrice :: rat
  cacheReadPrice :: rat

record CacheCreation =
  ephemeral_5m_input_tokens :: "int option"
  ephemeral_1h_input_tokens :: "int option"

record ApiUsage =
  input_tokens :: int
  output_tokens :: int
  cache_read_input_tokens :: "int option"
  cache_creation_input_tokens :: "int option"
  cache_creation :: "CacheCreation option"

definition orZero :: "int option \<Rightarrow> int" where
  "orZero x = (case x of None \<Rightarrow> 0 | Some n \<Rightarrow> n)"

definition computeCost ::
  "(string \<rightharpoonup> ModelPricing) \<Rightarrow> ModelPricing \<Rightarrow> string \<Rightarrow> ApiUsage \<Rightarrow> bool \<Rightarrow> rat" where
  "computeCost table defaultPricing modelId usage batch =
     (let pricing = (case table modelId of None \<Rightarrow> defaultPricing | Some p \<Rightarrow> p);
          cacheRead = orZero (cache_read_input_tokens usage);
          cacheWrite = orZero (cache_creation_input_tokens usage);
          cacheWrite5m =
            (case cache_creation usage of
               None \<Rightarrow> cacheWrite
             | Some c \<Rightarrow> (case ephemeral_5m_input_tokens c of None \<Rightarrow> cacheWrite | Some n \<Rightarrow> n));
          cacheWrite1h =
            (case cache_creation usage of
               None \<Rightarrow> 0
             | Some c \<Rightarrow> orZero (ephemeral_1h_input_tokens c));
          uncachedInput = input_tokens usage - cacheRead - cacheWrite;
          cost = (of_int uncachedInput * inputPrice pricing
                  + of_int cacheWrite5m * cacheWrite5mPrice pricing
                  + of_int cacheWrite1h * cacheWrite1hPrice pricing
                  + of_int cacheRead * cacheReadPrice pricing
                  + of_int (output_tokens usage) * outputPrice pricing) / 1000000
      in if batch then cost * (1 / 2) else cost)"

text \<open>The prices that the tests use.\<close>

definition testPricing :: "string \<rightharpoonup> ModelPricing" where
  "testPricing =
     [''claude-sonnet-4-6'' \<mapsto>
        \<lparr>inputPrice = 3, outputPrice = 15, cacheWrite5mPrice = 15 / 4, cacheWrite1hPrice = 6,
         cacheReadPrice = 3 / 10\<rparr>,
      ''claude-haiku-4-5'' \<mapsto>
        \<lparr>inputPrice = 1, outputPrice = 5, cacheWrite5mPrice = 5 / 4, cacheWrite1hPrice = 2,
         cacheReadPrice = 1 / 10\<rparr>]"

section \<open>Iteration controller (src/loop.ts)\<close>

text \<open>
  One iteration is modelled by the sequence of calls it makes to its collaborators. Every
  awaited call either resolves with a value or throws; what each call does is given by the
  environment. A computation takes the calls made so far and returns them extended, with
  its outcome: a value, an uncaught exception, or \<open>Waiting\<close> when the environment's script
  of CI rounds ended while the fix loop was still running.
\<close>

record CheckResult =
  passed :: bool
  error :: "string option"

record Plan =
  title :: string
  description :: string

datatype Event =
    SnapshotCodebase
  | GetContext
  | GetRecentLog
  | PlanCall string string
  | StorePastMemory string
  | CreateBranch string
  | CreatePatch
  | CommitAndPush string
  | OpenPR string string string
  | AwaitChecks "CheckResult option"
  | FixPatch string
  | MergePR nat
  | DeleteRemoteBranch string
  | GetCoverage
  | ResetWorkspace
  | ClosePR nat
  | ReflectCall string
  | WriteIterationLog

datatype 'a Outcome = Value 'a | Thrown | Waiting

type_synonym 'a IO = "Event list \<Rightarrow> Event list \<times> 'a Outcome"

text \<open>An awaited call: \<open>None\<close> is a rejected promise.\<close>

definition call :: "Event \<Rightarrow> 'a option \<Rightarrow> 'a IO" where
  "call e r tr = (tr @ [e], case r of None \<Rightarrow> Thrown | Some v \<Rightarrow> Value v)"

definition return :: "'a \<Rightarrow> 'a IO" where
  "return v tr = (tr, Value v)"

definition bind :: "'a IO \<Rightarrow> ('a \<Rightarrow> 'b IO) \<Rightarrow> 'b IO" where
  "bind m f tr =
     (case m tr of
        (tr', Value v) \<Rightarrow> f v tr'
      | (tr', Thrown) \<Rightarrow> (tr', Thrown)
      | (tr', Waiting) \<Rightarrow> (tr', Waiting))"

text \<open>\<open>promise.catch(() => {})\<close>\<close>

definition catchIgnore :: "unit IO \<Rightarrow> unit IO" where
  "catchIgnore m tr =
     (case m tr of
        (tr', Thrown) \<Rightarrow> (tr', Value ())
      | other \<Rightarrow> other)"

text \<open>\<open>try { ... } catch { ... }\<close>\<close>

definition tryCatch :: "'a IO \<Rightarrow> 'a IO \<Rightarrow> 'a IO" where
  "tryCatch m handler tr =
     (case m tr of
        (tr', Thrown) \<Rightarrow> handler tr'
      | other \<Rightarrow> other)"

text \<open>
  \<open>try { ... } finally { ... }\<close>: the finaliser runs after a value and after an exception;
  an exception of the finaliser replaces the outcome.
\<close>

definition tryFinally :: "'a IO \<Rightarrow> unit IO \<Rightarrow> 'a IO" where
  "tryFinally m finaliser tr =
     (case m tr of
        (tr', Waiting) \<Rightarrow> (tr', Waiting)
      | (tr', Thrown) \<Rightarrow>
          (case finaliser tr' of
             (tr'', Waiting) \<Rightarrow> (tr'', Waiting)
           | (tr'', _) \<Rightarrow> (tr'', Thrown))
      | (tr', Value v) \<Rightarrow>
          (case finaliser tr' of
             (tr'', Value _) \<Rightarrow> (tr'', Value v)
           | (tr'', Thrown) \<Rightarrow> (tr'', Thrown)
           | (tr'', Waiting) \<Rightarrow> (tr'', Waiting)))"

text \<open>
  What the collaborators do in one pass of the fix loop: the result of \<open>awaitChecks\<close>,
  the value of \<open>session.exhausted\<close>, and the results of \<open>storePastMemory\<close>,
  \<open>session.fixPatch\<close> and \<open>commitAndPush\<close>.
\<close>

record Round =
  r_awaitChecks :: "CheckResult option"
  r_exhausted :: bool
  r_storeCiFailed :: "unit option"
  r_fixPatch :: "EditOperation list option"
  r_pushFix :: "unit option"

record Env =
  r_snapshotCodebase :: "unit option"
  r_getContext :: "string option"
  r_getRecentLog :: "string option"
  r_plan :: "Plan option"
  r_storePlanned :: "unit option"
  r_createBranch :: "string option"
  r_createPatch :: "EditOperation list option"
  r_commitAndPush :: "unit option"
  r_openPR :: "nat option"
  r_rounds :: "Round list"
  r_mergePR :: "unit option"
  r_deleteBranchMerged :: "unit option"
  r_storeMerged :: "unit option"
  r_getCoverage :: "string option option"
  r_storeCoverage :: "unit option"
  r_resetWorkspace :: "unit option"
  r_closePR :: "unit option"
  r_deleteBranchClosed :: "unit option"
  r_storeFailed :: "unit option"
  r_reflect :: "string option"
  r_storeReflection :: "unit option"
  r_writeIterationLog :: "unit option"

text \<open>A number in a template literal.\<close>

fun decimal :: "nat \<Rightarrow> string" where
  "decimal n =
     (if n < 10 then [char_of (48 + n)]
      else decimal (n div 10) @ [char_of (48 + n mod 10)])"

declare decimal.simps [simp del]

text \<open>The \<open>while (true)\<close> loop of \<open>iterate\<close>; its value is \<open>(merged, outcome)\<close>.\<close>

fun fixLoop :: "Plan \<Rightarrow> nat \<Rightarrow> Round list \<Rightarrow> (bool \<times> string) IO" where
  "fixLoop iterationPlan prNumber [] = (\<lambda>tr. (tr, Waiting))"
| "fixLoop iterationPlan prNumber (rd # rds) =
     bind (call (AwaitChecks (r_awaitChecks rd)) (r_awaitChecks rd)) (\<lambda>result.
       if passed result
       then return (True, ''PR #'' @ decimal prNumber @ '' merged successfully.'')
       else
         let error' = (case error result of
                         None \<Rightarrow> ''CI checks failed with unknown error'' | Some e \<Rightarrow> e)
         in if r_exhausted rd
            then return (False, ''CI failed: '' @ take 10000 error')
            else
              bind (call (StorePastMemory
                      (''CI failed for '' @ [CHR 0x22] @ title iterationPlan @ [CHR 0x22]
                       @ '' (PR #'' @ decimal prNumber @ ''): '' @ take 10000 error'))
                    (r_storeCiFailed rd)) (\<lambda>_.
              bind (tryCatch
                      (bind (call (FixPatch error') (r_fixPatch rd)) (\<lambda>edits. return (Some edits)))
                      (return None)) (\<lambda>fixed.
                case fixed of
                  None \<Rightarrow> return (False, ''Builder failed to fix: '' @ take 500 error')
                | Some edits \<Rightarrow>
                    if edits = [] then return (False, ''Builder produced no fix edits.'')
                    else
                      bind (call (CommitAndPush (''fix: '' @ title iterationPlan))
                              (r_pushFix rd)) (\<lambda>_.
                      fixLoop iterationPlan prNumber rds))))"

text \<open>
  The body of the \<open>try\<close> block. Its value is what the code after the block reads:
  \<open>merged\<close>, \<open>prNumber\<close>, \<open>outcome\<close>, the plan and the branch name. That code runs
  only when the block has completed, so all of them are set by then.
\<close>

definition tryBlock :: "Env \<Rightarrow> (bool \<times> nat option \<times> string \<times> Plan \<times> string) IO" where
  "tryBlock env =
     bind (call SnapshotCodebase (r_snapshotCodebase env)) (\<lambda>_.
     bind (call GetContext (r_getContext env)) (\<lambda>recentMemory.
     bind (call GetRecentLog (r_getRecentLog env)) (\<lambda>gitLog'.
     bind (call (PlanCall recentMemory gitLog') (r_plan env)) (\<lambda>iterationPlan.
     bind (call (StorePastMemory
             (''Planned change '' @ [CHR 0x22] @ title iterationPlan @ [CHR 0x22] @ '': ''
              @ description iterationPlan))
           (r_storePlanned env)) (\<lambda>_.
     bind (call (CreateBranch (title iterationPlan)) (r_createBranch env)) (\<lambda>branchName.
     bind (call CreatePatch (r_createPatch env)) (\<lambda>edits.
     bind (if edits = []
           then return (False, None, ''Builder produced no edits.'')
           else
             bind (call (CommitAndPush (title iterationPlan)) (r_commitAndPush env)) (\<lambda>_.
             bind (call (OpenPR branchName (title iterationPlan) (description iterationPlan))
                     (r_openPR env)) (\<lambda>prNumber.
             bind (fixLoop iterationPlan prNumber (r_rounds env)) (\<lambda>(merged, outcome).
             return (merged, Some prNumber, outcome)))))
       (\<lambda>(merged, prNumber, outcome).
     bind (if merged
           then
             bind (call (MergePR (the prNumber)) (r_mergePR env)) (\<lambda>_.
             bind (catchIgnore (call (DeleteRemoteBranch branchName) (r_deleteBranchMerged env)))
               (\<lambda>_.
             bind (call (StorePastMemory
                     (''Merged PR #'' @ decimal (the prNumber) @ '': '' @ [CHR 0x22]
                      @ title iterationPlan @ [CHR 0x22] @ '' '' @ [CHR 0x97]
                      @ '' CI passed and change is now on main.''))
                   (r_storeMerged env)) (\<lambda>_.
             bind (call GetCoverage (r_getCoverage env)) (\<lambda>coverage'.
             if truthy coverage'
             then call (StorePastMemory (''Post-merge coverage report:\<newline>'' @ the coverage'))
                    (r_storeCoverage env)
             else return ()))))
           else return ())
       (\<lambda>_. return (merged, prNumber, outcome, iterationPlan, branchName))))))))))"

definition iterate :: "Env \<Rightarrow> bool IO" where
  "iterate env =
     bind (tryFinally (tryBlock env) (call ResetWorkspace (r_resetWorkspace env)))
       (\<lambda>(merged, prNumber, outcome, iterationPlan, branchName).
     bind (if \<not> merged
           then
             let planTitle = title iterationPlan in
             (case prNumber of
                Some n \<Rightarrow>
                  bind (call (ClosePR n) (r_closePR env)) (\<lambda>_.
                  bind (catchIgnore
                          (call (DeleteRemoteBranch branchName) (r_deleteBranchClosed env)))
                    (\<lambda>_.
                  call (StorePastMemory
                          (''Closed PR #'' @ decimal n @ '': '' @ [CHR 0x22] @ planTitle
                           @ [CHR 0x22] @ '' '' @ [CHR 0x97] @ '' '' @ outcome))
                       (r_storeFailed env)))
              | None \<Rightarrow>
                  call (StorePastMemory
                          (''Gave up on '' @ [CHR 0x22] @ planTitle @ [CHR 0x22] @ '' ''
                           @ [CHR 0x97] @ '' '' @ outcome))
                       (r_storeFailed env))
           else return ())
       (\<lambda>_.
     bind (call (ReflectCall outcome) (r_reflect env)) (\<lambda>reflection.
     bind (call (StorePastMemory (''Self-reflection: '' @ reflection)) (r_storeReflection env))
       (\<lambda>_.
     bind (call WriteIterationLog (r_writeIterationLog env)) (\<lambda>_.
     return merged)))))"

text \<open>
  The properties of a call sequence used to state and prove merge gating: every
  \<open>MergePR\<close> is immediately preceded by a passing \<open>AwaitChecks\<close>; the sequence ends
  with a passing \<open>AwaitChecks\<close>; and a computation that, started on a sequence
  satisfying \<open>P\<close>, leaves a gated sequence and, when it returns a value, one satisfying
  \<open>Q\<close>.
\<close>

definition gated :: "Event list \<Rightarrow> bool" where
  "gated tr = (\<forall>before n after. tr = before @ MergePR n # after \<longrightarrow>
                 (\<exists>r before'. before = before' @ [AwaitChecks (Some r)] \<and> passed r))"

definition justPassed :: "Event list \<Rightarrow> bool" where
  "justPassed tr = (\<exists>r tr'. tr = tr' @ [AwaitChecks (Some r)] \<and> passed r)"

definition valid :: "(Event list \<Rightarrow> bool) \<Rightarrow> 'a IO \<Rightarrow> ('a \<Rightarrow> Event list \<Rightarrow> bool) \<Rightarrow> bool" where
  "valid P m Q = (\<forall>tr tr' r. P tr \<longrightarrow> m tr = (tr', r) \<longrightarrow>
      (case r of Value v \<Rightarrow> Q v tr' | Thrown \<Rightarrow> gated tr' | Waiting \<Rightarrow> gated tr'))"

section \<open>Properties\<close>

subsection \<open>Request parameters and signature stripping\<close>

text \<open>
  Claim C8. For each of the phases planner, builder, fixer and reflect the request built by
  \<open>buildParams\<close> enables thinking with budget
  \<open>min (configured thinking budget) (maxTokens - 2048)\<close> and its \<open>max_tokens\<close> is
  \<open>maxTokens\<close> plus that budget; for the memory phase thinking is absent and
  \<open>max_tokens\<close> is the configured \<open>maxTokens\<close> of the phase.
\<close>

theorem buildParams_thinking:
  "(phase \<in> {Planner, Builder, Fixer, Reflect} \<longrightarrow>
      thinking (buildParams config ex aw phase msgs ts)
        = Some (min (thinkingBudget config) (maxTokens (phases config phase) - 2048))
    \<and> max_tokens (buildParams config ex aw phase msgs ts)
        = maxTokens (phases config phase)
          + min (thinkingBudget config) (maxTokens (phases config phase) - 2048))
   \<and> (phase = Memory \<longrightarrow>
      thinking (buildParams config ex aw phase msgs ts) = None
    \<and> max_tokens (buildParams config ex aw phase msgs ts) = maxTokens (phases config phase))"
  by (cases phase)
     (simp_all add: buildParams_def THINKING_PHASES_def MIN_OUTPUT_TOKENS_def Let_def)

theorem buildParams_thinking_witness:
  "Planner \<in> {Planner, Builder, Fixer, Reflect}
   \<and> thinking (buildParams
        \<lparr>phases = (\<lambda>_. \<lparr>model = ''m'', maxTokens = 8192\<rparr>), thinkingBudget = 10000,
         memoryTokenBudget = 10000\<rparr>
        (\<lambda>_. \<lparr>system = ''s'', tools = None\<rparr>)
        \<lparr>workingContext = ''w'', codebaseContext = ''c'', coverage = None, gitLog = ''g'',
         memoryContext = ''mem'', unusedFunctions = None\<rparr>
        Planner ([] :: string list) (None :: string list option)) = Some 6144
   \<and> max_tokens (buildParams
        \<lparr>phases = (\<lambda>_. \<lparr>model = ''m'', maxTokens = 8192\<rparr>), thinkingBudget = 10000,
         memoryTokenBudget = 10000\<rparr>
        (\<lambda>_. \<lparr>system = ''s'', tools = None\<rparr>)
        \<lparr>workingContext = ''w'', codebaseContext = ''c'', coverage = None, gitLog = ''g'',
         memoryContext = ''mem'', unusedFunctions = None\<rparr>
        Memory ([] :: string list) (None :: string list option)) = 8192"
  using
    buildParams_thinking [of Planner
        "\<lparr>phases = (\<lambda>_. \<lparr>model = ''m'', maxTokens = 8192\<rparr>), thinkingBudget = 10000,
          memoryTokenBudget = 10000\<rparr>"
        "(\<lambda>_. \<lparr>system = ''s'', tools = None\<rparr>)"
        "\<lparr>workingContext = ''w'', codebaseContext = ''c'', coverage = None, gitLog = ''g'',
          memoryContext = ''mem'', unusedFunctions = None\<rparr>"
        "[] :: string list" "None :: string list option"]
    buildParams_thinking [of Memory
        "\<lparr>phases = (\<lambda>_. \<lparr>model = ''m'', maxTokens = 8192\<rparr>), thinkingBudget = 10000,
          memoryTokenBudget = 10000\<rparr>"
        "(\<lambda>_. \<lparr>system = ''s'', tools = None\<rparr>)"
        "\<lparr>workingContext = ''w'', codebaseContext = ''c'', coverage = None, gitLog = ''g'',
          memoryContext = ''mem'', unusedFunctions = None\<rparr>"
        "[] :: string list" "None :: string list option"]
  by simp

lemma map_of_filter_key:
  "map_of (filter (\<lambda>p. fst p \<noteq> s) b) = (map_of b)(s := None)"
  by (induction b) (auto simp: fun_eq_iff)

text \<open>
  Claim C10. \<open>stripThinkingSignatures\<close> keeps the number and order of the blocks; a block
  whose \<open>type\<close> is not \<open>thinking\<close> is returned as it is, with any \<open>signature\<close>
  property it carries; a \<open>thinking\<close> block loses exactly its \<open>signature\<close> property and
  keeps every other property with its value.
\<close>

theorem stripThinkingSignatures_frame:
  "length (stripThinkingSignatures blocks) = length blocks
   \<and> (\<forall>i < length blocks.
        (map_of (blocks ! i) ''type'' \<noteq> Some (JString ''thinking'')
           \<longrightarrow> stripThinkingSignatures blocks ! i = blocks ! i)
      \<and> (map_of (blocks ! i) ''type'' = Some (JString ''thinking'')
           \<longrightarrow> map_of (stripThinkingSignatures blocks ! i)
                 = (map_of (blocks ! i))(''signature'' := None)
             \<and> map fst (stripThinkingSignatures blocks ! i)
                 = filter (\<lambda>k. k \<noteq> ''signature'') (map fst (blocks ! i))))"
  by (simp add: stripThinkingSignatures_def map_of_filter_key filter_map o_def
        case_prod_unfold)

theorem stripThinkingSignatures_frame_witness:
  "(1::nat) < length [[(''type'', JString ''text''), (''text'', JString ''hello''),
                       (''signature'', JString ''shouldStay'')],
                      [(''type'', JString ''thinking''), (''thinking'', JString ''some thought''),
                       (''signature'', JString ''abc123'')]]
   \<and> map_of (stripThinkingSignatures
        [[(''type'', JString ''text''), (''text'', JString ''hello''),
          (''signature'', JString ''shouldStay'')],
         [(''type'', JString ''thinking''), (''thinking'', JString ''some thought''),
          (''signature'', JString ''abc123'')]] ! 1) ''signature'' = None
   \<and> map_of (stripThinkingSignatures
        [[(''type'', JString ''text''), (''text'', JString ''hello''),
          (''signature'', JString ''shouldStay'')],
         [(''type'', JString ''thinking''), (''thinking'', JString ''some thought''),
          (''signature'', JString ''abc123'')]] ! 1) ''thinking'' = Some (JString ''some thought'')
   \<and> stripThinkingSignatures
        [[(''type'', JString ''text''), (''text'', JString ''hello''),
          (''signature'', JString ''shouldStay'')],
         [(''type'', JString ''thinking''), (''thinking'', JString ''some thought''),
          (''signature'', JString ''abc123'')]] ! 0
       = [(''type'', JString ''text''), (''text'', JString ''hello''),
          (''signature'', JString ''shouldStay'')]"
  using stripThinkingSignatures_frame
    [of "[[(''type'', JString ''text''), (''text'', JString ''hello''),
           (''signature'', JString ''shouldStay'')],
          [(''type'', JString ''thinking''), (''thinking'', JString ''some thought''),
           (''signature'', JString ''abc123'')]]"]
  by (simp add: nth_Cons')

subsection \<open>The memory context and its budget\<close>

lemma length_join:
  "length (join sep xs) = sum_list (map length xs) + (length xs - 1) * length sep"
  by (induction sep xs rule: join.induct) simp_all

lemma join_Cons:
  "join sep (x # xs) = x @ (if xs = [] then [] else sep @ join sep xs)"
  by (cases xs) simp_all

lemma join_snoc:
  "join sep (xs @ [y]) = (if xs = [] then y else join sep xs @ sep @ y)"
  by (induction sep xs rule: join.induct) simp_all

lemma estimateTokens_append:
  "estimateTokens (a @ b) \<le> estimateTokens a + estimateTokens b"
  by (simp add: estimateTokens_def)

lemma int_sum_list:
  "int (sum_list (map f ls)) = (\<Sum>l\<leftarrow>ls. int (f l))"
  by (induction ls) simp_all

lemma ceil_sum_le:
  "(sum_list (map (\<lambda>l. length l + 1) ls) + 3) div 4
     \<le> sum_list (map (\<lambda>l. estimateTokens (l @ ''\<newline>'')) ls)"
proof (induction ls)
  case Nil
  show ?case by simp
next
  case (Cons l ls)
  then show ?case by (simp add: estimateTokens_def)
qed

lemma length_join_newline:
  "ls \<noteq> [] \<Longrightarrow> length (join ''\<newline>'' ls) + 1 = sum_list (map (\<lambda>l. length l + 1) ls)"
  by (induction "''\<newline>''" ls rule: join.induct) simp_all

lemma pastSection_tokens:
  assumes "ls \<noteq> []"
  shows "estimateTokens (pastSection ls)
           \<le> estimateTokens ''## Past\<newline>'' + sum_list (map (\<lambda>l. estimateTokens (l @ ''\<newline>'')) ls)"
proof -
  have "length (pastSection ls) + 1 = 8 + sum_list (map (\<lambda>l. length l + 1) ls)"
    using length_join_newline [OF assms] by (simp add: pastSection_def)
  then have "estimateTokens (pastSection ls) \<le> 2 + (sum_list (map (\<lambda>l. length l + 1) ls) + 3) div 4"
    by (simp add: estimateTokens_def)
  also have "\<dots> \<le> 2 + sum_list (map (\<lambda>l. estimateTokens (l @ ''\<newline>'')) ls)"
    using ceil_sum_le [of ls] by simp
  finally show ?thesis by (simp add: estimateTokens_def)
qed

lemma pastLoop_budget:
  "pastLoop fmt budget used pt ms \<noteq> [] \<Longrightarrow>
     used + pt + (\<Sum>l\<leftarrow>pastLoop fmt budget used pt ms. int (estimateTokens (l @ ''\<newline>''))) \<le> budget"
proof (induction ms arbitrary: pt)
  case Nil
  then show ?case by simp
next
  case (Cons m ms)
  let ?lt = "int (estimateTokens (pastLine fmt m @ ''\<newline>''))"
  from Cons.prems have fits: "\<not> used + pt + ?lt > budget"
    by (auto simp: Let_def split: if_splits)
  show ?case
  proof (cases "pastLoop fmt budget used (pt + ?lt) ms = []")
    case True
    with fits show ?thesis by (simp add: Let_def)
  next
    case False
    from Cons.IH [OF False] fits show ?thesis by (simp add: Let_def add.assoc)
  qed
qed

lemma pastSection_within_remaining:
  assumes "assemble budget fmt store = (tokensUsed, sections2, lines)" and "lines \<noteq> []"
  shows "int (estimateTokens (pastSection lines)) \<le> budget - tokensUsed"
proof -
  from assms have L: "lines = pastLoop fmt budget tokensUsed (int (estimateTokens ''## Past\<newline>'')) (recent store)"
    by (auto simp: assemble_def Let_def split: if_splits prod.splits)
  from pastLoop_budget [of fmt budget tokensUsed _ "recent store"] L assms(2)
  have "tokensUsed + int (estimateTokens ''## Past\<newline>'')
          + (\<Sum>l\<leftarrow>lines. int (estimateTokens (l @ ''\<newline>''))) \<le> budget"
    by simp
  moreover have "int (estimateTokens (pastSection lines))
      \<le> int (estimateTokens ''## Past\<newline>'') + (\<Sum>l\<leftarrow>lines. int (estimateTokens (l @ ''\<newline>'')))"
    using pastSection_tokens [OF assms(2)] int_sum_list [of "\<lambda>l. estimateTokens (l @ ''\<newline>'')" lines]
    by linarith
  ultimately show ?thesis by linarith
qed

lemma assemble_sections:
  assumes "assemble budget fmt store = (u, secs, ls)"
  shows "\<exists>incl. secs = (if notes' store \<noteq> [] then [notesSection store] else [])
                        @ (if incl then [ideasSection store] else [])
               \<and> (incl \<longrightarrow> u \<le> budget)"
    and "u = (\<Sum>s\<leftarrow>secs. int (estimateTokens s))"
  using assms
  by (auto simp: assemble_def Let_def split: if_splits prod.splits)

lemma getContext_sections:
  assumes "assemble budget fmt store = (u, secs, ls)"
  shows "getContext budget fmt store =
           (if secs @ (if ls \<noteq> [] then [pastSection ls] else []) = []
            then ''No memories yet. This is your first run.''
            else join ''\<newline>\<newline>'' (secs @ (if ls \<noteq> [] then [pastSection ls] else [])))"
  using assms by (simp add: getContext_def Let_def)

lemma getContext_tokens:
  assumes A: "assemble budget fmt store = (u, secs, ls)"
      and ne: "secs \<noteq> [] \<or> ls \<noteq> []"
  shows "int (estimateTokens (getContext budget fmt store))
           \<le> max (budget + 1)
                 (if notes' store = [] then 0 else int (estimateTokens (notesSection store)))"
proof -
  from assemble_sections [OF A] obtain incl where
    secs: "secs = (if notes' store \<noteq> [] then [notesSection store] else [])
                  @ (if incl then [ideasSection store] else [])"
    and incl: "incl \<longrightarrow> u \<le> budget"
    and u: "u = (\<Sum>s\<leftarrow>secs. int (estimateTokens s))"
    by blast
  have past: "ls \<noteq> [] \<longrightarrow> int (estimateTokens (pastSection ls)) + u \<le> budget"
    using pastSection_within_remaining [OF A] by auto
  have G: "getContext budget fmt store
             = join ''\<newline>\<newline>'' (secs @ (if ls \<noteq> [] then [pastSection ls] else []))"
    using getContext_sections [OF A] ne by auto
  show ?thesis
  proof (cases "ls = []")
    case True
    with ne secs incl u show ?thesis
      unfolding G by (auto simp: estimateTokens_def split: if_splits)
  next
    case False
    with past u secs show ?thesis
      unfolding G by (auto simp: estimateTokens_def split: if_splits)
  qed
qed

lemma set_sortDesc: "set (sortDesc ms) = set ms"
  by (simp add: sortDesc_def)

lemma set_notes': "set (notes' store) = {m \<in> set store. pinned m \<and> ideaStatus m = None}"
  by (auto simp: notes'_def pinnedMemories_def set_sortDesc)



text \<open>
  Claim C1 (amended). Let \<open>tokensUsed\<close>, \<open>sections2\<close> and \<open>lines\<close> be the state of
  \<open>getContext\<close> at the end of its loop. Whenever a section is produced, the token estimate
  of the returned string is at most the larger of \<open>budget + 1\<close> and the estimate of the whole
  notes section; when none is produced the first-run message is returned. The notes section
  holds every pinned item without idea status and starts the returned string in full;
  \<open>tokensUsed\<close> is the sum of the estimates of the notes and ideas sections that were pushed;
  the past section, when present, ends the returned string and its estimate is at most
  \<open>budget - tokensUsed\<close>.
\<close>

theorem getContext_budget:
  assumes A: "assemble budget fmt store = (tokensUsed, sections2, lines)"
  shows "(sections2 \<noteq> [] \<or> lines \<noteq> [] \<longrightarrow>
            int (estimateTokens (getContext budget fmt store))
              \<le> max (budget + 1)
                    (if notes' store = [] then 0 else int (estimateTokens (notesSection store))))
       \<and> (sections2 = [] \<and> lines = [] \<longrightarrow>
            getContext budget fmt store = ''No memories yet. This is your first run.'')
       \<and> (notes' store \<noteq> [] \<longrightarrow> (\<exists>rest. getContext budget fmt store = notesSection store @ rest))
       \<and> set (notes' store) = {m \<in> set store. pinned m \<and> ideaStatus m = None}
       \<and> tokensUsed = (\<Sum>s\<leftarrow>sections2. int (estimateTokens s))
       \<and> (lines \<noteq> [] \<longrightarrow>
            (\<exists>before. getContext budget fmt store = before @ pastSection lines)
          \<and> int (estimateTokens (pastSection lines)) \<le> budget - tokensUsed)"
proof -
  from assemble_sections [OF A] obtain incl where
    secs: "sections2 = (if notes' store \<noteq> [] then [notesSection store] else [])
                  @ (if incl then [ideasSection store] else [])"
    by blast
  have G: "getContext budget fmt store =
           (if sections2 @ (if lines \<noteq> [] then [pastSection lines] else []) = []
            then ''No memories yet. This is your first run.''
            else join ''\<newline>\<newline>'' (sections2 @ (if lines \<noteq> [] then [pastSection lines] else [])))"
    by (rule getContext_sections [OF A])
  have 1: "sections2 \<noteq> [] \<or> lines \<noteq> [] \<longrightarrow>
            int (estimateTokens (getContext budget fmt store))
              \<le> max (budget + 1)
                    (if notes' store = [] then 0 else int (estimateTokens (notesSection store)))"
    using getContext_tokens [OF A] by blast
  have 2: "sections2 = [] \<and> lines = [] \<longrightarrow>
            getContext budget fmt store = ''No memories yet. This is your first run.''"
    using G by simp
  have 3: "notes' store \<noteq> [] \<longrightarrow> (\<exists>rest. getContext budget fmt store = notesSection store @ rest)"
    using G secs by (simp add: join_Cons)
  have 4: "tokensUsed = (\<Sum>s\<leftarrow>sections2. int (estimateTokens s))"
    by (rule assemble_sections(2) [OF A])
  have 5: "lines \<noteq> [] \<longrightarrow> (\<exists>before. getContext budget fmt store = before @ pastSection lines)"
    using G by (simp add: join_snoc)
  have 6: "lines \<noteq> [] \<longrightarrow> int (estimateTokens (pastSection lines)) \<le> budget - tokensUsed"
    using pastSection_within_remaining [OF A] by blast
  from 1 2 3 4 5 6 set_notes' [of store] show ?thesis by blast
qed

lemmas ctx_defs = getContext_def assemble_def notes'_def ideas_def recent_def pinnedMemories_def
  sortDesc_def notesSection_def ideasSection_def noteLine_def ideaLine_def estimateTokens_def
  pastSection_def pastLine_def Let_def

theorem getContext_budget_witness:
  "assemble 60 (\<lambda>_. ''2026-01-01 00:00:00'')
        [\<lparr>mid = ''65a000000000000000000001'', content = ''Goal one'', summary = ''mock summary'',
          pinned = True, ideaStatus = None, ideaContext = None, createdAt = 1\<rparr>,
         \<lparr>mid = ''65a000000000000000000004'', content = ''Add retry logic'',
          summary = ''mock summary'', pinned = True, ideaStatus = Some Pending,
          ideaContext = Some ''why'', createdAt = 4\<rparr>,
         \<lparr>mid = ''65a000000000000000000005'', content = ''Merged PR #1'',
          summary = ''mock summary'', pinned = False, ideaStatus = None, ideaContext = None,
          createdAt = 5\<rparr>,
         \<lparr>mid = ''65a000000000000000000006'', content = ''Merged PR #2'',
          summary = ''mock summary'', pinned = False, ideaStatus = None, ideaContext = None,
          createdAt = 6\<rparr>]
     = (32,
        [''## Notes to self\<newline>- (65a000000000000000000001) mock summary'',
         ''## Ideas\<newline>- [PENDING] (65a000000000000000000004) mock summary ''
           @ [CHR 0x97] @ '' why''],
        [''- (65a000000000000000000006) [2026-01-01 00:00:00] mock summary''])
   \<and> int (estimateTokens (pastSection
        [''- (65a000000000000000000006) [2026-01-01 00:00:00] mock summary''])) \<le> 60 - 32
   \<and> int (estimateTokens (getContext 60 (\<lambda>_. ''2026-01-01 00:00:00'')
        [\<lparr>mid = ''65a000000000000000000001'', content = ''Goal one'', summary = ''mock summary'',
          pinned = True, ideaStatus = None, ideaContext = None, createdAt = 1\<rparr>,
         \<lparr>mid = ''65a000000000000000000004'', content = ''Add retry logic'',
          summary = ''mock summary'', pinned = True, ideaStatus = Some Pending,
          ideaContext = Some ''why'', createdAt = 4\<rparr>,
         \<lparr>mid = ''65a000000000000000000005'', content = ''Merged PR #1'',
          summary = ''mock summary'', pinned = False, ideaStatus = None, ideaContext = None,
          createdAt = 5\<rparr>,
         \<lparr>mid = ''65a000000000000000000006'', content = ''Merged PR #2'',
          summary = ''mock summary'', pinned = False, ideaStatus = None, ideaContext = None,
          createdAt = 6\<rparr>])) \<le> 61"
proof -
  let ?store = "[\<lparr>mid = ''65a000000000000000000001'', content = ''Goal one'', summary = ''mock summary'',
          pinned = True, ideaStatus = None, ideaContext = None, createdAt = 1\<rparr>,
         \<lparr>mid = ''65a000000000000000000004'', content = ''Add retry logic'',
          summary = ''mock summary'', pinned = True, ideaStatus = Some Pending,
          ideaContext = Some ''why'', createdAt = 4\<rparr>,
         \<lparr>mid = ''65a000000000000000000005'', content = ''Merged PR #1'',
          summary = ''mock summary'', pinned = False, ideaStatus = None, ideaContext = None,
          createdAt = 5\<rparr>,
         \<lparr>mid = ''65a000000000000000000006'', content = ''Merged PR #2'',
          summary = ''mock summary'', pinned = False, ideaStatus = None, ideaContext = None,
          createdAt = 6\<rparr>]"
  have h: "assemble 60 (\<lambda>_. ''2026-01-01 00:00:00'') ?store
     = (32,
        [''## Notes to self\<newline>- (65a000000000000000000001) mock summary'',
         ''## Ideas\<newline>- [PENDING] (65a000000000000000000004) mock summary ''
           @ [CHR 0x97] @ '' why''],
        [''- (65a000000000000000000006) [2026-01-01 00:00:00] mock summary''])"
    by (simp add: ctx_defs)
  have n: "notesSection ?store = ''## Notes to self\<newline>- (65a000000000000000000001) mock summary''"
    by (simp add: ctx_defs)
  have ne: "notes' ?store \<noteq> []"
    by (simp add: ctx_defs)
  from getContext_budget [OF h] h n ne show ?thesis
    by (simp add: estimateTokens_def)
qed

text \<open>
  The bound of claim C1 as stated, \<open>budget\<close> plus the estimate of the longest single pinned
  line, fails for three pinned notes under a budget of 10 (36 tokens are returned, the bound
  is 21), and for the empty store under a budget of 5 (the first-run message has 10 tokens).
\<close>

theorem getContext_budget_counterexample:
  "\<not> int (estimateTokens (getContext 10 (\<lambda>_. ''2026-01-01 00:00:00'')
        [\<lparr>mid = ''65a000000000000000000001'', content = ''Goal one'', summary = ''mock summary'',
          pinned = True, ideaStatus = None, ideaContext = None, createdAt = 1\<rparr>,
         \<lparr>mid = ''65a000000000000000000002'', content = ''Goal two'', summary = ''mock summary'',
          pinned = True, ideaStatus = None, ideaContext = None, createdAt = 2\<rparr>,
         \<lparr>mid = ''65a000000000000000000003'', content = ''Goal three'', summary = ''mock summary'',
          pinned = True, ideaStatus = None, ideaContext = None, createdAt = 3\<rparr>]))
      \<le> 10 + int (longestPinnedBlock
        [\<lparr>mid = ''65a000000000000000000001'', content = ''Goal one'', summary = ''mock summary'',
          pinned = True, ideaStatus = None, ideaContext = None, createdAt = 1\<rparr>,
         \<lparr>mid = ''65a000000000000000000002'', content = ''Goal two'', summary = ''mock summary'',
          pinned = True, ideaStatus = None, ideaContext = None, createdAt = 2\<rparr>,
         \<lparr>mid = ''65a000000000000000000003'', content = ''Goal three'', summary = ''mock summary'',
          pinned = True, ideaStatus = None, ideaContext = None, createdAt = 3\<rparr>])
   \<and> \<not> int (estimateTokens (getContext 5 (\<lambda>_. ''2026-01-01 00:00:00'') []))
      \<le> 5 + int (longestPinnedBlock [])"
  by (simp add: ctx_defs longestPinnedBlock_def)

subsection \<open>The life cycle of an idea\<close>


lemma castHex_lower:
  "castHex ''65a000000000000000000001'' = Some ''65a000000000000000000001''"
  by (simp add: castHex_def isHexDigit_def lowerHexDigit_def)

lemma castHex_upper:
  "castHex ''65A000000000000000000001'' = Some ''65a000000000000000000001''"
  by (simp add: castHex_def isHexDigit_def lowerHexDigit_def)


lemmas op_defs = storeIdea_def storePinnedMemory_def storePastMemory_def create_def
  updateIdeaStatus_def unpinMemory_def findById_def save_def runOps_def



lemma findById_Some:
  "findById c s i = Some (Some m) \<Longrightarrow> m \<in> set s \<and> c i = Some (mid m)"
  by (auto simp: findById_def find_Some_iff)

lemma save_mem:
  "m \<in> set (save s d) \<Longrightarrow> (m = d) \<or> (m \<in> set s \<and> mid m \<noteq> mid d)"
  by (auto simp: save_def split: if_splits)

lemma list_ex_dismisses_snoc:
  "list_ex (dismisses c oid) (ops @ [op]) = (list_ex (dismisses c oid) ops \<or> dismisses c oid op)"
  by simp

lemma pin_inv_step:
  assumes I: "\<forall>m\<in>set s. (ideaStatus m = Some Completed \<longrightarrow> \<not> pinned m)
            \<and> (ideaStatus m \<noteq> None \<and> \<not> list_ex (dismisses c (mid m)) ops \<longrightarrow> pinned m)"
  shows "\<forall>m\<in>set (applyOp c s op). (ideaStatus m = Some Completed \<longrightarrow> \<not> pinned m)
            \<and> (ideaStatus m \<noteq> None \<and> \<not> list_ex (dismisses c (mid m)) (ops @ [op])
                 \<longrightarrow> pinned m)"
proof (cases op)
  case (StorePast a b e d)
  with I show ?thesis
    by (auto simp: storePastMemory_def create_def split: if_splits)
next
  case (StorePinned a b e d)
  with I show ?thesis
    by (auto simp: storePinnedMemory_def create_def split: if_splits)
next
  case (StoreIdea a b e d f)
  with I show ?thesis
    by (auto simp: storeIdea_def create_def split: if_splits)
next
  case (Unpin i)
  show ?thesis
  proof (cases "findById c s i")
    case None
    with I Unpin show ?thesis by (auto simp: unpinMemory_def)
  next
    case (Some found)
    show ?thesis
    proof (cases found)
      case None
      with I Unpin Some show ?thesis by (auto simp: unpinMemory_def)
    next
      case (Some mem)
      with \<open>findById c s i = Some found\<close> have F: "findById c s i = Some (Some mem)" by simp
      from findById_Some [OF F] have mem: "mem \<in> set s" "c i = Some (mid mem)" by auto
      show ?thesis
      proof (cases "pinned mem")
        case False
        with I Unpin F show ?thesis by (auto simp: unpinMemory_def)
      next
        case True
        with Unpin F have A: "applyOp c s op = save s (mem\<lparr>pinned := False\<rparr>)"
          by (simp add: unpinMemory_def)
        show ?thesis unfolding A
        proof
          fix m assume "m \<in> set (save s (mem\<lparr>pinned := False\<rparr>))"
          then consider "m = mem\<lparr>pinned := False\<rparr>" | "m \<in> set s" "mid m \<noteq> mid mem"
            using save_mem [of m s "mem\<lparr>pinned := False\<rparr>"] by auto
          then show "(ideaStatus m = Some Completed \<longrightarrow> \<not> pinned m)
              \<and> (ideaStatus m \<noteq> None \<and> \<not> list_ex (dismisses c (mid m)) (ops @ [op])
                   \<longrightarrow> pinned m)"
          proof cases
            case 1
            with mem Unpin show ?thesis by simp
          next
            case 2
            with I show ?thesis by auto
          qed
        qed
      qed
    qed
  qed
next
  case (UpdateIdeaStatus i st)
  show ?thesis
  proof (cases "findById c s i")
    case None
    with I UpdateIdeaStatus show ?thesis by (auto simp: updateIdeaStatus_def)
  next
    case (Some found)
    show ?thesis
    proof (cases found)
      case None
      with I UpdateIdeaStatus Some show ?thesis by (auto simp: updateIdeaStatus_def)
    next
      case (Some mem)
      with \<open>findById c s i = Some found\<close> have F: "findById c s i = Some (Some mem)" by simp
      from findById_Some [OF F] have mem: "mem \<in> set s" "c i = Some (mid mem)" by auto
      show ?thesis
      proof (cases "ideaStatus mem = None")
        case True
        with I UpdateIdeaStatus F show ?thesis by (auto simp: updateIdeaStatus_def)
      next
        case False
        define mem' where "mem' = (if st = completed
            then mem\<lparr>ideaStatus := Some (toIdeaStatus st), pinned := False\<rparr>
            else mem\<lparr>ideaStatus := Some (toIdeaStatus st)\<rparr>)"
        from False UpdateIdeaStatus F have A: "applyOp c s op = save s mem'"
          by (auto simp: updateIdeaStatus_def Let_def mem'_def)
        have mid': "mid mem' = mid mem" by (simp add: mem'_def)
        show ?thesis unfolding A
        proof
          fix m assume "m \<in> set (save s mem')"
          then consider "m = mem'" | "m \<in> set s" "mid m \<noteq> mid mem"
            using save_mem [of m s mem'] mid' by auto
          then show "(ideaStatus m = Some Completed \<longrightarrow> \<not> pinned m)
              \<and> (ideaStatus m \<noteq> None \<and> \<not> list_ex (dismisses c (mid m)) (ops @ [op])
                   \<longrightarrow> pinned m)"
          proof cases
            case 1
            from I mem False have "\<not> list_ex (dismisses c (mid mem)) ops \<longrightarrow> pinned mem"
              by auto
            with 1 mem UpdateIdeaStatus show ?thesis
              by (cases st) (auto simp: mem'_def)
          next
            case 2
            with I show ?thesis by auto
          qed
        qed
      qed
    qed
  qed
qed

lemma pin_inv_run:
  "\<forall>m\<in>set (runOps c ops []). (ideaStatus m = Some Completed \<longrightarrow> \<not> pinned m)
            \<and> (ideaStatus m \<noteq> None \<and> \<not> list_ex (dismisses c (mid m)) ops \<longrightarrow> pinned m)"
proof (induction ops rule: rev_induct)
  case Nil
  show ?case by (simp add: runOps_def)
next
  case (snoc op ops)
  have "runOps c (ops @ [op]) [] = applyOp c (runOps c ops []) op"
    by (simp add: runOps_def)
  with pin_inv_step [OF snoc.IH, of op] show ?case by simp
qed

text \<open>
  Claim C3 (amended). In every store reached from the empty one by memory operations,
  whatever strings the driver takes for which object id, a completed item is not pinned,
  and an item whose status is pending or attempted is pinned provided that neither
  \<open>unpin\<close> nor \<open>updateIdeaStatus\<close> to completed was ever called with a string that
  denotes its id.
\<close>

theorem pin_idea_invariant:
  "\<forall>m\<in>set (runOps castObjectId ops []).
      (ideaStatus m = Some Completed \<longrightarrow> \<not> pinned m)
    \<and> (ideaStatus m \<in> {Some Pending, Some Attempted}
         \<and> \<not> list_ex (dismisses castObjectId (mid m)) ops \<longrightarrow> pinned m)"
  using pin_inv_run [of castObjectId ops] by auto

theorem pin_idea_invariant_witness:
  "hd (runOps castHex
         [StoreIdea ''65a000000000000000000001'' 1 ''mock summary'' ''Add retry logic'' ''why'',
          UpdateIdeaStatus ''65A000000000000000000001'' attempted] [])
     \<in> set (runOps castHex
         [StoreIdea ''65a000000000000000000001'' 1 ''mock summary'' ''Add retry logic'' ''why'',
          UpdateIdeaStatus ''65A000000000000000000001'' attempted] [])
   \<and> ideaStatus (hd (runOps castHex
         [StoreIdea ''65a000000000000000000001'' 1 ''mock summary'' ''Add retry logic'' ''why'',
          UpdateIdeaStatus ''65A000000000000000000001'' attempted] []))
       = Some Attempted
   \<and> mid (hd (runOps castHex
         [StoreIdea ''65a000000000000000000001'' 1 ''mock summary'' ''Add retry logic'' ''why'',
          UpdateIdeaStatus ''65A000000000000000000001'' attempted] []))
       = ''65a000000000000000000001''
   \<and> \<not> list_ex (dismisses castHex ''65a000000000000000000001'')
         [StoreIdea ''65a000000000000000000001'' 1 ''mock summary'' ''Add retry logic'' ''why'',
          UpdateIdeaStatus ''65A000000000000000000001'' attempted]
   \<and> pinned (hd (runOps castHex
         [StoreIdea ''65a000000000000000000001'' 1 ''mock summary'' ''Add retry logic'' ''why'',
          UpdateIdeaStatus ''65A000000000000000000001'' attempted] []))"
proof -
  let ?ops = "[StoreIdea ''65a000000000000000000001'' 1 ''mock summary'' ''Add retry logic'' ''why'',
               UpdateIdeaStatus ''65A000000000000000000001'' attempted]"
  have m: "hd (runOps castHex ?ops []) \<in> set (runOps castHex ?ops [])"
    by (simp add: op_defs castHex_upper)
  have st: "ideaStatus (hd (runOps castHex ?ops [])) = Some Attempted"
    by (simp add: op_defs castHex_upper)
  have i: "mid (hd (runOps castHex ?ops [])) = ''65a000000000000000000001''"
    by (simp add: op_defs castHex_upper)
  have d: "\<not> list_ex (dismisses castHex (mid (hd (runOps castHex ?ops [])))) ?ops"
    unfolding i by simp
  from pin_idea_invariant [of castHex ?ops] m st d
  have "pinned (hd (runOps castHex ?ops []))"
    by blast
  with m st i d show ?thesis
    by simp
qed

text \<open>
  Claim C3 as stated fails: \<open>unpinMemory\<close> applied to a pending idea leaves an item that
  is pending, was never completed and is not pinned.
\<close>

theorem pin_idea_invariant_counterexample:
  "runOps castHex
     [StoreIdea ''65a000000000000000000001'' 1 ''mock summary'' ''Add retry logic'' ''why'',
      Unpin ''65a000000000000000000001''] []
     = [\<lparr>mid = ''65a000000000000000000001'', content = ''Add retry logic'',
         summary = ''mock summary'', pinned = False, ideaStatus = Some Pending,
         ideaContext = Some ''why'', createdAt = 1\<rparr>]"
  by (simp add: op_defs castHex_lower)

text \<open>
  The same happens when the id is given in another case: the cast takes both strings for
  the same object id, so this call is one that the invariant above excludes.
\<close>

lemma unpin_by_other_case:
  "runOps castHex
     [StoreIdea ''65a000000000000000000001'' 1 ''mock summary'' ''Add retry logic'' ''why'',
      Unpin ''65A000000000000000000001''] []
     = [\<lparr>mid = ''65a000000000000000000001'', content = ''Add retry logic'',
         summary = ''mock summary'', pinned = False, ideaStatus = Some Pending,
         ideaContext = Some ''why'', createdAt = 1\<rparr>]
   \<and> list_ex (dismisses castHex ''65a000000000000000000001'')
        [StoreIdea ''65a000000000000000000001'' 1 ''mock summary'' ''Add retry logic'' ''why'',
         Unpin ''65A000000000000000000001'']"
  by (simp add: op_defs castHex_upper)

subsection \<open>Applying edits\<close>

lemma indexOf_Some:
  assumes "indexOf c s p = Some k"
  shows "occursAt c s k" and "min p (length c) \<le> k" and "k \<le> length c"
    and "\<And>j. min p (length c) \<le> j \<Longrightarrow> j < k \<Longrightarrow> \<not> occursAt c s j"
proof -
  let ?a = "min p (length c)"
  from assms obtain i where i: "i < length [?a ..< length c + 1]"
      "occursAt c s ([?a ..< length c + 1] ! i)" "k = [?a ..< length c + 1] ! i"
      "\<forall>j<i. \<not> occursAt c s ([?a ..< length c + 1] ! j)"
    unfolding indexOf_def Let_def find_Some_iff by blast
  from i(1) have il: "?a + i < length c + 1" by simp
  then have k: "k = ?a + i" using i(3) by (simp del: upt_Suc)
  from i(2) i(3) show "occursAt c s k" by simp
  from k show "?a \<le> k" by simp
  from k il show "k \<le> length c" by simp
  fix j assume j: "?a \<le> j" "j < k"
  then have "j - ?a < i" using k by arith
  with i(4) have "\<not> occursAt c s ([?a ..< length c + 1] ! (j - ?a))" by blast
  moreover have "[?a ..< length c + 1] ! (j - ?a) = j"
    using j k il by (simp del: upt_Suc)
  ultimately show "\<not> occursAt c s j" by simp
qed

lemma indexOf_None:
  "indexOf c s p = None \<longleftrightarrow> (\<forall>k. min p (length c) \<le> k \<and> k \<le> length c \<longrightarrow> \<not> occursAt c s k)"
  unfolding indexOf_def Let_def find_None_iff by (auto simp del: upt_Suc)

lemma occursAt_le: "occursAt c s k \<Longrightarrow> k \<le> length c"
  by (simp add: occursAt_def)

lemma indexOf_first:
  assumes "occursAt c s i"
  shows "\<exists>k. indexOf c s 0 = Some k \<and> k \<le> i \<and> occursAt c s k"
proof (cases "indexOf c s 0")
  case None
  with assms occursAt_le [OF assms] show ?thesis by (auto simp: indexOf_None)
next
  case (Some k)
  from indexOf_Some(4) [OF Some, of i] assms have "k \<le> i" by force
  with Some indexOf_Some(1) [OF Some] show ?thesis by simp
qed

lemma replace_unique:
  assumes f: "fs (r p) = Some c"
      and i: "occursAt c old i"
      and u: "\<forall>j. occursAt c old j \<longrightarrow> j = i"
      and ne: "\<not> (c = [] \<and> old = [])"
  shows "applyEdit r fs (Replace p old new)
           = (fs(r p \<mapsto> take i c @ new @ drop (i + length old) c), [])"
proof -
  from indexOf_first [OF i] u have first: "indexOf c old 0 = Some i" by auto
  have "i + 1 \<le> length c"
  proof (rule ccontr)
    assume "\<not> i + 1 \<le> length c"
    with i have il: "i = length c" and o: "old = []" by (auto simp: occursAt_def)
    then have "occursAt c old 0" by (simp add: occursAt_def)
    with u il have "c = []" by auto
    with o ne show False by simp
  qed
  then have "min (i + 1) (length c) = i + 1" by simp
  with u have second: "indexOf c old (i + 1) = None"
    by (auto simp: indexOf_None)
  show ?thesis
    using f first second by (simp add: readFile_def writeFile_def)
qed

lemma replace_absent:
  assumes f: "fs (r p) = Some c" and z: "\<forall>j. \<not> occursAt c old j"
  shows "applyEdit r fs (Replace p old new)
           = (fs, [''replace '' @ [CHR 0x22] @ p @ [CHR 0x22] @ '': oldString not found in file''])"
proof -
  from z have "indexOf c old 0 = None" by (simp add: indexOf_None)
  with f show ?thesis by (simp add: readFile_def)
qed

lemma replace_ambiguous:
  assumes f: "fs (r p) = Some c" and i: "occursAt c old i" and j: "occursAt c old j" and ij: "i < j"
  shows "applyEdit r fs (Replace p old new)
           = (fs, [''replace '' @ [CHR 0x22] @ p @ [CHR 0x22]
                   @ '': oldString matches multiple locations '' @ [CHR 0x97]
                   @ '' add more context to make it unique''])"
proof -
  from indexOf_first [OF i] obtain k where k: "indexOf c old 0 = Some k" "k \<le> i" by blast
  have "min (k + 1) (length c) \<le> j \<and> j \<le> length c \<and> occursAt c old j"
    using j ij k(2) occursAt_le [OF j] by simp
  then have "indexOf c old (k + 1) \<noteq> None"
    unfolding indexOf_None by blast
  then obtain k2 where "indexOf c old (k + 1) = Some k2" by blast
  with f k show ?thesis by (simp add: readFile_def)
qed

lemma occursAt_empty_in_empty: "occursAt [] [] i \<longleftrightarrow> i = 0"
  by (simp add: occursAt_def)

text \<open>
  Claim C4. A Replace whose \<open>oldString\<close> occurs exactly once in the file is to splice
  \<open>newString\<close> in at that place. The lemmas above show that \<open>applyEdit\<close> does so, and fails
  without touching the file when there is no or more than one occurrence, in every case
  but one: the empty \<open>oldString\<close> occurs exactly once in an empty file, at index 0, yet
  the search for a second occurrence starts at index 1, is clamped to the length 0 and
  finds index 0 again, so the operation is refused as ambiguous and the file stays empty.
\<close>

theorem applyEdit_replace_empty_in_empty:
  "applyEdit ((@) ''/workspace/'') [''/workspace/notes.md'' \<mapsto> []]
       (Replace ''notes.md'' [] ''hello'')
     = ([''/workspace/notes.md'' \<mapsto> []],
        [''replace '' @ [CHR 0x22] @ ''notes.md'' @ [CHR 0x22]
           @ '': oldString matches multiple locations '' @ [CHR 0x97]
           @ '' add more context to make it unique''])"
  by (simp add: readFile_def indexOf_def occursAt_def)

lemma applyEditsLoop_append:
  "applyEditsLoop r fs errs (ops1 @ ops2) =
     (case applyEditsLoop r fs errs ops1 of (fs1, errs1) \<Rightarrow> applyEditsLoop r fs1 errs1 ops2)"
  by (induction ops1 arbitrary: fs errs) (auto split: prod.splits)

lemma fsBefore_Suc:
  "k < length ops \<Longrightarrow>
     fsBefore r fs ops (Suc k) = fst (applyEdit r (fsBefore r fs ops k) (ops ! k))"
  by (simp add: fsBefore_def take_Suc_conv_app_nth)

lemma applyEditsLoop_take:
  "k \<le> length ops \<Longrightarrow>
   applyEditsLoop r fs errs (take k ops) =
     (fsBefore r fs ops k,
      errs @ concat (map (\<lambda>i. snd (applyEdit r (fsBefore r fs ops i) (ops ! i))) [0 ..< k]))"
proof (induction k)
  case 0
  show ?case by (simp add: fsBefore_def)
next
  case (Suc k)
  then have k: "k < length ops" by simp
  then have "take (Suc k) ops = take k ops @ [ops ! k]"
    by (simp add: take_Suc_conv_app_nth)
  then show ?case
    using Suc.IH k by (simp add: applyEditsLoop_append fsBefore_Suc split: prod.splits)
qed

lemma applyEdit_error_keeps_fs:
  "snd (applyEdit r fs op) \<noteq> [] \<Longrightarrow> fst (applyEdit r fs op) = fs"
  by (cases op) (auto simp: Let_def split: sum.splits option.splits)

lemma applyEdit_one_error:
  "length (snd (applyEdit r fs op)) \<le> 1"
  by (cases op) (auto simp: Let_def split: sum.splits option.splits)

text \<open>
  Claim C5. \<open>applyEdits\<close> runs every operation, the \<open>k\<close>-th one on the file system left
  by the operations before it, whether or not one of them failed; an operation that pushes
  an error leaves the file system as it found it, so the result keeps every successful
  edit. The messages are collected in order, and the call throws, with the messages
  joined into one, exactly when at least one operation failed.
\<close>

theorem applyEdits_collects:
  assumes "applyEdits r fs ops = (fs', res)"
      and "errors = concat (map (\<lambda>k. snd (applyEdit r (fsBefore r fs ops k) (ops ! k)))
                             [0 ..< length ops])"
  shows "fs' = fsBefore r fs ops (length ops)
       \<and> (\<forall>k < length ops.
             fsBefore r fs ops (Suc k) = fst (applyEdit r (fsBefore r fs ops k) (ops ! k))
           \<and> (snd (applyEdit r (fsBefore r fs ops k) (ops ! k)) \<noteq> []
                \<longrightarrow> fsBefore r fs ops (Suc k) = fsBefore r fs ops k))
       \<and> ((\<exists>k < length ops. snd (applyEdit r (fsBefore r fs ops k) (ops ! k)) \<noteq> [])
            \<longleftrightarrow> (\<exists>message. res = Inl message))
       \<and> res = (if errors = [] then Inr ()
                else Inl (''Edit operations failed:\<newline>'' @ join ''\<newline>'' errors))"
proof -
  have L: "applyEditsLoop r fs [] ops = (fsBefore r fs ops (length ops), errors)"
    using applyEditsLoop_take [of "length ops" ops r fs "[]"] assms(2) by simp
  with assms(1) have fs': "fs' = fsBefore r fs ops (length ops)"
    and res: "res = (if errors = [] then Inr ()
                else Inl (''Edit operations failed:\<newline>'' @ join ''\<newline>'' errors))"
    by (auto simp: applyEdits_def split: if_splits)
  have steps: "\<forall>k < length ops.
             fsBefore r fs ops (Suc k) = fst (applyEdit r (fsBefore r fs ops k) (ops ! k))
           \<and> (snd (applyEdit r (fsBefore r fs ops k) (ops ! k)) \<noteq> []
                \<longrightarrow> fsBefore r fs ops (Suc k) = fsBefore r fs ops k)"
    by (simp add: fsBefore_Suc applyEdit_error_keeps_fs)
  have "(errors \<noteq> []) = (\<exists>k < length ops. snd (applyEdit r (fsBefore r fs ops k) (ops ! k)) \<noteq> [])"
    unfolding assms(2) by (auto simp del: upt_Suc)
  with res have iff: "(\<exists>k < length ops. snd (applyEdit r (fsBefore r fs ops k) (ops ! k)) \<noteq> [])
            \<longleftrightarrow> (\<exists>message. res = Inl message)"
    by auto
  from fs' steps iff res show ?thesis by blast
qed

theorem applyEdits_collects_witness:
  "snd (applyEdits ((@) ''/w/'') [''/w/a'' \<mapsto> ''xfoo'']
          [Replace ''b'' ''x'' ''y'', Replace ''a'' ''foo'' ''bar'', Delete ''c''])
     = Inl (''Edit operations failed:\<newline>''
            @ ''replace '' @ [CHR 0x22] @ ''b'' @ [CHR 0x22]
            @ '': ENOENT: no such file or directory, open '' @ [CHR 0x27] @ ''/w/b'' @ [CHR 0x27]
            @ ''\<newline>''
            @ ''delete '' @ [CHR 0x22] @ ''c'' @ [CHR 0x22]
            @ '': ENOENT: no such file or directory, unlink '' @ [CHR 0x27] @ ''/w/c''
            @ [CHR 0x27])
   \<and> fst (applyEdits ((@) ''/w/'') [''/w/a'' \<mapsto> ''xfoo'']
          [Replace ''b'' ''x'' ''y'', Replace ''a'' ''foo'' ''bar'', Delete ''c'']) ''/w/a''
     = Some ''xbar''"
proof -
  let ?r = "(@) ''/w/''"
  let ?fs = "[''/w/a'' \<mapsto> ''xfoo'']"
  let ?fs1 = "[''/w/a'' \<mapsto> ''xbar'']"
  let ?ops = "[Replace ''b'' ''x'' ''y'', Replace ''a'' ''foo'' ''bar'', Delete ''c'']"
  let ?m0 = "''replace '' @ [CHR 0x22] @ ''b'' @ [CHR 0x22]
            @ '': ENOENT: no such file or directory, open '' @ [CHR 0x27] @ ''/w/b'' @ [CHR 0x27]"
  let ?m2 = "''delete '' @ [CHR 0x22] @ ''c'' @ [CHR 0x22]
            @ '': ENOENT: no such file or directory, unlink '' @ [CHR 0x27] @ ''/w/c''
            @ [CHR 0x27]"
  have p: "applyEdits ?r ?fs ?ops = (fst (applyEdits ?r ?fs ?ops), snd (applyEdits ?r ?fs ?ops))"
    by simp
  have e0: "applyEdit ?r ?fs (Replace ''b'' ''x'' ''y'') = (?fs, [?m0])"
    by (simp add: readFile_def enoent_def)
  have e1: "applyEdit ?r ?fs (Replace ''a'' ''foo'' ''bar'') = (?fs1, [])"
    by (simp add: readFile_def writeFile_def indexOf_def occursAt_def upt_rec)
  have e2: "applyEdit ?r ?fs1 (Delete ''c'') = (?fs1, [?m2])"
    by (simp add: unlink_def enoent_def)
  have b0: "fsBefore ?r ?fs ?ops 0 = ?fs"
    by (simp add: fsBefore_def)
  have b1: "fsBefore ?r ?fs ?ops (Suc 0) = ?fs"
    using fsBefore_Suc [of 0 ?ops ?r ?fs] by (simp only: b0 e0 nth_Cons_0 fst_conv length_Cons list.size; simp)
  have b2: "fsBefore ?r ?fs ?ops (Suc (Suc 0)) = ?fs1"
    using fsBefore_Suc [of "Suc 0" ?ops ?r ?fs] by (simp only: b1 e1 nth_Cons_0 nth_Cons_Suc fst_conv length_Cons list.size; simp)
  have b3: "fsBefore ?r ?fs ?ops (Suc (Suc (Suc 0))) = ?fs1"
    using fsBefore_Suc [of "Suc (Suc 0)" ?ops ?r ?fs] by (simp only: b2 e2 nth_Cons_0 nth_Cons_Suc fst_conv length_Cons list.size; simp)
  have u: "[0 ..< length ?ops] = [0, Suc 0, Suc (Suc 0)]"
    by (simp add: upt_rec)
  have l: "length ?ops = Suc (Suc (Suc 0))" by simp
  have errs: "concat (map (\<lambda>k. snd (applyEdit ?r (fsBefore ?r ?fs ?ops k) (?ops ! k)))
                   [0 ..< length ?ops]) = [?m0, ?m2]"
    unfolding u by (simp add: b0 b1 b2 e0 e1 e2 del: applyEdit.simps)
  from applyEdits_collects [OF p refl]
  have A: "fst (applyEdits ?r ?fs ?ops) = fsBefore ?r ?fs ?ops (length ?ops)"
   and B: "snd (applyEdits ?r ?fs ?ops)
            = (if concat (map (\<lambda>k. snd (applyEdit ?r (fsBefore ?r ?fs ?ops k) (?ops ! k)))
                   [0 ..< length ?ops]) = [] then Inr ()
               else Inl (''Edit operations failed:\<newline>'' @ join ''\<newline>''
                    (concat (map (\<lambda>k. snd (applyEdit ?r (fsBefore ?r ?fs ?ops k) (?ops ! k)))
                   [0 ..< length ?ops]))))"
    by blast+
  from A have "fst (applyEdits ?r ?fs ?ops) = ?fs1"
    unfolding l b3 .
  moreover from B have "snd (applyEdits ?r ?fs ?ops)
       = Inl (''Edit operations failed:\<newline>'' @ join ''\<newline>'' [?m0, ?m2])"
    unfolding errs by simp
  ultimately show ?thesis by simp
qed

subsection \<open>Merge gating\<close>

lemma gated_Nil: "gated []"
  by (simp add: gated_def)

lemma gated_snoc:
  assumes "gated tr" and "\<And>n. e \<noteq> MergePR n"
  shows "gated (tr @ [e])"
  unfolding gated_def
proof (intro allI impI)
  fix before n after
  assume eq: "tr @ [e] = before @ MergePR n # after"
  show "\<exists>r before'. before = before' @ [AwaitChecks (Some r)] \<and> passed r"
  proof (cases after rule: rev_cases)
    case Nil
    with eq assms(2) show ?thesis by auto
  next
    case (snoc after' x)
    with eq have "tr = before @ MergePR n # after'" by simp
    with assms(1) show ?thesis unfolding gated_def by blast
  qed
qed

lemma gated_snoc_merge:
  assumes "gated tr" and "justPassed tr"
  shows "gated (tr @ [MergePR n])"
  unfolding gated_def
proof (intro allI impI)
  fix before k after
  assume eq: "tr @ [MergePR n] = before @ MergePR k # after"
  show "\<exists>r before'. before = before' @ [AwaitChecks (Some r)] \<and> passed r"
  proof (cases after rule: rev_cases)
    case Nil
    with eq have "before = tr" by simp
    with assms(2) show ?thesis unfolding justPassed_def by blast
  next
    case (snoc after' x)
    with eq have "tr = before @ MergePR k # after'" by simp
    with assms(1) show ?thesis unfolding gated_def by blast
  qed
qed

lemma validI:
  assumes "\<And>tr tr' r. P tr \<Longrightarrow> m tr = (tr', r) \<Longrightarrow>
             (case r of Value v \<Rightarrow> Q v tr' | Thrown \<Rightarrow> gated tr' | Waiting \<Rightarrow> gated tr')"
  shows "valid P m Q"
  using assms unfolding valid_def by blast

lemma validD:
  assumes "valid P m Q" and "P tr" and "m tr = (tr', r)"
  shows "case r of Value v \<Rightarrow> Q v tr' | Thrown \<Rightarrow> gated tr' | Waiting \<Rightarrow> gated tr'"
  using assms unfolding valid_def by blast

lemma valid_return: "valid (Q v) (return v) Q"
  by (rule validI) (auto simp: return_def)

lemma valid_bind:
  assumes m: "valid P m R" and f: "\<And>v. valid (R v) (f v) Q"
  shows "valid P (bind m f) Q"
proof (rule validI)
  fix tr tr' r assume P: "P tr" and b: "bind m f tr = (tr', r)"
  obtain tr1 r1 where m1: "m tr = (tr1, r1)" by (cases "m tr")
  note d = validD [OF m P m1]
  show "case r of Value v \<Rightarrow> Q v tr' | Thrown \<Rightarrow> gated tr' | Waiting \<Rightarrow> gated tr'"
  proof (cases r1)
    case (Value v)
    with b m1 have "f v tr1 = (tr', r)" by (simp add: bind_def)
    from validD [OF f _ this] d Value show ?thesis by simp
  next
    case Thrown
    with b m1 d show ?thesis by (auto simp: bind_def)
  next
    case Waiting
    with b m1 d show ?thesis by (auto simp: bind_def)
  qed
qed

lemma valid_weaken:
  assumes m: "valid P m Q" and pre: "\<And>tr. P' tr \<Longrightarrow> P tr" and post: "\<And>v tr. Q v tr \<Longrightarrow> Q' v tr"
  shows "valid P' m Q'"
proof (rule validI)
  fix tr tr' r assume "P' tr" and e: "m tr = (tr', r)"
  then have "P tr" using pre by blast
  from validD [OF m this e] post show
    "case r of Value v \<Rightarrow> Q' v tr' | Thrown \<Rightarrow> gated tr' | Waiting \<Rightarrow> gated tr'"
    by (cases r) auto
qed

lemma valid_call:
  assumes "\<And>n. e \<noteq> MergePR n"
  shows "valid gated (call e r) (\<lambda>_. gated)"
  by (rule validI) (auto simp: call_def gated_snoc [OF _ assms] split: option.splits)

lemma valid_call_awaitChecks:
  "valid gated (call (AwaitChecks r) r)
     (\<lambda>result tr. gated tr \<and> (passed result \<longrightarrow> justPassed tr))"
  by (rule validI) (auto simp: call_def gated_snoc justPassed_def split: option.splits)

lemma valid_call_merge:
  "valid (\<lambda>tr. gated tr \<and> justPassed tr) (call (MergePR n) r) (\<lambda>_. gated)"
  by (rule validI) (auto simp: call_def gated_snoc_merge split: option.splits)

lemma valid_catchIgnore:
  assumes m: "valid P m (\<lambda>_. gated)"
  shows "valid P (catchIgnore m) (\<lambda>_. gated)"
proof (rule validI)
  fix tr tr' r assume P: "P tr" and c: "catchIgnore m tr = (tr', r)"
  obtain tr1 r1 where m1: "m tr = (tr1, r1)" by (cases "m tr")
  from validD [OF m P m1] c m1 show
    "case r of Value v \<Rightarrow> gated tr' | Thrown \<Rightarrow> gated tr' | Waiting \<Rightarrow> gated tr'"
    by (cases r1) (auto simp: catchIgnore_def)
qed

lemma valid_tryCatch:
  assumes m: "valid P m Q" and h: "valid gated h Q"
  shows "valid P (tryCatch m h) Q"
proof (rule validI)
  fix tr tr' r assume P: "P tr" and c: "tryCatch m h tr = (tr', r)"
  obtain tr1 r1 where m1: "m tr = (tr1, r1)" by (cases "m tr")
  note d = validD [OF m P m1]
  show "case r of Value v \<Rightarrow> Q v tr' | Thrown \<Rightarrow> gated tr' | Waiting \<Rightarrow> gated tr'"
  proof (cases r1)
    case Thrown
    with c m1 have "h tr1 = (tr', r)" by (simp add: tryCatch_def)
    from validD [OF h _ this] d Thrown show ?thesis by simp
  next
    case (Value v)
    with c m1 d show ?thesis by (auto simp: tryCatch_def)
  next
    case Waiting
    with c m1 d show ?thesis by (auto simp: tryCatch_def)
  qed
qed

lemma valid_tryFinally:
  assumes m: "valid P m (\<lambda>v tr. gated tr \<and> Q v)" and fin: "valid gated fin (\<lambda>_. gated)"
  shows "valid P (tryFinally m fin) (\<lambda>v tr. gated tr \<and> Q v)"
proof (rule validI)
  fix tr tr' r assume P: "P tr" and c: "tryFinally m fin tr = (tr', r)"
  obtain tr1 r1 where m1: "m tr = (tr1, r1)" by (cases "m tr")
  note d = validD [OF m P m1]
  then have g1: "gated tr1" by (cases r1) auto
  obtain tr2 r2 where f2: "fin tr1 = (tr2, r2)" by (cases "fin tr1")
  from validD [OF fin g1 f2] have g2: "gated tr2" by (cases r2) auto
  from c m1 f2 d g1 g2 show
    "case r of Value v \<Rightarrow> gated tr' \<and> Q v | Thrown \<Rightarrow> gated tr' | Waiting \<Rightarrow> gated tr'"
    by (cases r1; cases r2) (auto simp: tryFinally_def)
qed

lemma valid_return':
  assumes "\<And>tr. P tr \<Longrightarrow> Q v tr"
  shows "valid P (return v) Q"
  by (rule valid_weaken [OF valid_return [of Q v]]) (use assms in auto)

lemma valid_call':
  assumes "\<And>n. e \<noteq> MergePR n" and "\<And>tr. P tr \<Longrightarrow> gated tr"
  shows "valid P (call e r) (\<lambda>_. gated)"
  by (rule valid_weaken [OF valid_call [OF assms(1)]]) (use assms(2) in auto)

lemma valid_bind_gated:
  assumes "valid P m (\<lambda>_. gated)" and "\<And>v. valid gated (f v) Q"
  shows "valid P (bind m f) Q"
  by (rule valid_bind [OF assms(1)]) (rule assms(2))

lemma valid_if:
  assumes "c \<Longrightarrow> valid P a Q" and "\<not> c \<Longrightarrow> valid P b Q"
  shows "valid P (if c then a else b) Q"
  using assms by simp

lemma valid_fixLoop:
  "valid gated (fixLoop iterationPlan prNumber rds)
     (\<lambda>(merged, outcome) tr. gated tr \<and> (merged \<longrightarrow> justPassed tr))"
proof (induction rds)
  case Nil
  show ?case by (rule validI) simp
next
  case (Cons rd rds)
  let ?Q = "\<lambda>(merged, outcome) tr. gated tr \<and> (merged \<longrightarrow> justPassed tr)"
  have fixp: "valid gated
      (tryCatch (bind (call (FixPatch e) (r_fixPatch rd)) (\<lambda>edits. return (Some edits)))
         (return None)) (\<lambda>_. gated)" for e
    by (intro valid_tryCatch valid_bind_gated valid_call' valid_return') simp_all
  have rest: "valid gated
      (case fixed of
         None \<Rightarrow> return (False, ''Builder failed to fix: '' @ take 500 e)
       | Some edits \<Rightarrow>
           if edits = [] then return (False, ''Builder produced no fix edits.'')
           else bind (call (CommitAndPush (''fix: '' @ title iterationPlan)) (r_pushFix rd))
                  (\<lambda>_. fixLoop iterationPlan prNumber rds)) ?Q" for fixed e
  proof (cases fixed)
    case None
    then show ?thesis by (simp add: valid_return')
  next
    case (Some edits)
    show ?thesis
    proof (cases "edits = []")
      case True
      with Some show ?thesis by (simp add: valid_return')
    next
      case False
      have "valid gated (bind (call (CommitAndPush (''fix: '' @ title iterationPlan)) (r_pushFix rd))
                  (\<lambda>_. fixLoop iterationPlan prNumber rds)) ?Q"
        by (rule valid_bind_gated [OF valid_call' Cons.IH]) simp_all
      with Some False show ?thesis by simp
    qed
  qed
  have body: "valid (\<lambda>tr. gated tr \<and> (passed result \<longrightarrow> justPassed tr))
     (if passed result
       then return (True, ''PR #'' @ decimal prNumber @ '' merged successfully.'')
       else
         let error' = (case error result of
                         None \<Rightarrow> ''CI checks failed with unknown error'' | Some e \<Rightarrow> e)
         in if r_exhausted rd
            then return (False, ''CI failed: '' @ take 10000 error')
            else
              bind (call (StorePastMemory
                      (''CI failed for '' @ [CHR 0x22] @ title iterationPlan @ [CHR 0x22]
                       @ '' (PR #'' @ decimal prNumber @ ''): '' @ take 10000 error'))
                    (r_storeCiFailed rd)) (\<lambda>_.
              bind (tryCatch
                      (bind (call (FixPatch error') (r_fixPatch rd)) (\<lambda>edits. return (Some edits)))
                      (return None)) (\<lambda>fixed.
                case fixed of
                  None \<Rightarrow> return (False, ''Builder failed to fix: '' @ take 500 error')
                | Some edits \<Rightarrow>
                    if edits = [] then return (False, ''Builder produced no fix edits.'')
                    else
                      bind (call (CommitAndPush (''fix: '' @ title iterationPlan))
                              (r_pushFix rd)) (\<lambda>_.
                      fixLoop iterationPlan prNumber rds)))) ?Q" for result
  proof (cases "passed result")
    case True
    then show ?thesis by (simp add: valid_return')
  next
    case False
    show ?thesis
    proof (cases "r_exhausted rd")
      case True
      with False show ?thesis by (simp add: valid_return' Let_def)
    next
      case ne: False
      have step: "valid (\<lambda>tr. gated tr \<and> (b \<longrightarrow> justPassed tr))
              (bind (call (StorePastMemory s) (r_storeCiFailed rd)) (\<lambda>_.
               bind (tryCatch
                      (bind (call (FixPatch e) (r_fixPatch rd)) (\<lambda>edits. return (Some edits)))
                      (return None)) (\<lambda>fixed.
                case fixed of
                  None \<Rightarrow> return (False, ''Builder failed to fix: '' @ take 500 e)
                | Some edits \<Rightarrow>
                    if edits = [] then return (False, ''Builder produced no fix edits.'')
                    else
                      bind (call (CommitAndPush (''fix: '' @ title iterationPlan))
                              (r_pushFix rd)) (\<lambda>_.
                      fixLoop iterationPlan prNumber rds)))) ?Q" for s e b
        by (rule valid_bind_gated [OF valid_call' valid_bind_gated [OF fixp rest]]) simp_all
      show ?thesis
        by (simp only: False ne if_False Let_def) (rule step)
    qed
  qed
  show ?case
    unfolding fixLoop.simps
    by (rule valid_bind [OF valid_call_awaitChecks body])
qed

lemma valid_build:
  "valid gated
     (if edits = []
      then return (False, None, ''Builder produced no edits.'')
      else
        bind (call (CommitAndPush (title iterationPlan)) (r_commitAndPush env)) (\<lambda>_.
        bind (call (OpenPR branchName (title iterationPlan) (description iterationPlan))
                (r_openPR env)) (\<lambda>prNumber.
        bind (fixLoop iterationPlan prNumber (r_rounds env)) (\<lambda>(merged, outcome).
        return (merged, Some prNumber, outcome)))))
     (\<lambda>(merged, prNumber, outcome) tr. gated tr \<and> (merged \<longrightarrow> justPassed tr))"
proof (rule valid_if)
  show "valid gated (return (False, None, ''Builder produced no edits.''))
     (\<lambda>(merged, prNumber, outcome) tr. gated tr \<and> (merged \<longrightarrow> justPassed tr))"
    by (rule valid_return') simp
next
  have loop: "valid gated
      (bind (fixLoop iterationPlan prNumber (r_rounds env)) (\<lambda>(merged, outcome).
        return (merged, Some prNumber, outcome)))
      (\<lambda>(merged, prNumber, outcome) tr. gated tr \<and> (merged \<longrightarrow> justPassed tr))" for prNumber
    by (rule valid_bind [OF valid_fixLoop]) (auto intro: valid_return')
  show "valid gated
     (bind (call (CommitAndPush (title iterationPlan)) (r_commitAndPush env)) (\<lambda>_.
        bind (call (OpenPR branchName (title iterationPlan) (description iterationPlan))
                (r_openPR env)) (\<lambda>prNumber.
        bind (fixLoop iterationPlan prNumber (r_rounds env)) (\<lambda>(merged, outcome).
        return (merged, Some prNumber, outcome)))))
     (\<lambda>(merged, prNumber, outcome) tr. gated tr \<and> (merged \<longrightarrow> justPassed tr))"
    by (intro valid_bind_gated [OF valid_call'] loop) simp_all
qed

lemma valid_merge:
  "valid (\<lambda>tr. gated tr \<and> (merged \<longrightarrow> justPassed tr))
     (bind (if merged
           then
             bind (call (MergePR n) (r_mergePR env)) (\<lambda>_.
             bind (catchIgnore (call (DeleteRemoteBranch branchName) (r_deleteBranchMerged env)))
               (\<lambda>_.
             bind (call (StorePastMemory s) (r_storeMerged env)) (\<lambda>_.
             bind (call GetCoverage (r_getCoverage env)) (\<lambda>coverage'.
             if truthy coverage'
             then call (StorePastMemory (''Post-merge coverage report:\<newline>'' @ the coverage'))
                    (r_storeCoverage env)
             else return ()))))
           else return ())
       (\<lambda>_. return v))
     (\<lambda>_. gated)"
proof (cases merged)
  case False
  then show ?thesis
    by (simp only: if_False) (intro valid_bind_gated valid_return'; simp)
next
  case True
  have m: "valid (\<lambda>tr. gated tr \<and> (True \<longrightarrow> justPassed tr)) (call (MergePR n) (r_mergePR env))
             (\<lambda>_. gated)"
    by (rule valid_weaken [OF valid_call_merge]) simp_all
  have d: "valid gated
      (catchIgnore (call (DeleteRemoteBranch branchName) (r_deleteBranchMerged env))) (\<lambda>_. gated)"
    by (intro valid_catchIgnore valid_call') simp_all
  have c: "valid gated
      (if truthy coverage'
       then call (StorePastMemory (''Post-merge coverage report:\<newline>'' @ the coverage'))
              (r_storeCoverage env)
       else return ()) (\<lambda>_. gated)" for coverage'
    by (intro valid_if valid_call' valid_return') simp_all
  show ?thesis
    by (simp only: True if_True)
       (intro valid_bind_gated [OF valid_bind_gated [OF m]] valid_bind_gated [OF d]
          valid_bind_gated [OF valid_call'] c valid_return'; simp)
qed

lemma valid_tryBlock: "valid gated (tryBlock env) (\<lambda>_. gated)"
proof -
  have tail: "valid gated
     (bind (if edits = []
           then return (False, None, ''Builder produced no edits.'')
           else
             bind (call (CommitAndPush (title iterationPlan)) (r_commitAndPush env)) (\<lambda>_.
             bind (call (OpenPR branchName (title iterationPlan) (description iterationPlan))
                     (r_openPR env)) (\<lambda>prNumber.
             bind (fixLoop iterationPlan prNumber (r_rounds env)) (\<lambda>(merged, outcome).
             return (merged, Some prNumber, outcome)))))
       (\<lambda>(merged, prNumber, outcome).
     bind (if merged
           then
             bind (call (MergePR (the prNumber)) (r_mergePR env)) (\<lambda>_.
             bind (catchIgnore (call (DeleteRemoteBranch branchName) (r_deleteBranchMerged env)))
               (\<lambda>_.
             bind (call (StorePastMemory
                     (''Merged PR #'' @ decimal (the prNumber) @ '': '' @ [CHR 0x22]
                      @ title iterationPlan @ [CHR 0x22] @ '' '' @ [CHR 0x97]
                      @ '' CI passed and change is now on main.''))
                   (r_storeMerged env)) (\<lambda>_.
             bind (call GetCoverage (r_getCoverage env)) (\<lambda>coverage'.
             if truthy coverage'
             then call (StorePastMemory (''Post-merge coverage report:\<newline>'' @ the coverage'))
                    (r_storeCoverage env)
             else return ()))))
           else return ())
       (\<lambda>_. return (merged, prNumber, outcome, iterationPlan, branchName))))
     (\<lambda>_. gated)" for edits iterationPlan branchName
  proof (rule valid_bind [OF valid_build])
    fix v :: "bool \<times> nat option \<times> string"
    obtain merged prNumber outcome where v: "v = (merged, prNumber, outcome)"
      by (cases v) auto
    show "valid
      (case v of (merged, prNumber, outcome) \<Rightarrow> \<lambda>tr. gated tr \<and> (merged \<longrightarrow> justPassed tr))
      (case v of (merged, prNumber, outcome) \<Rightarrow>
         bind (if merged
           then
             bind (call (MergePR (the prNumber)) (r_mergePR env)) (\<lambda>_.
             bind (catchIgnore (call (DeleteRemoteBranch branchName) (r_deleteBranchMerged env)))
               (\<lambda>_.
             bind (call (StorePastMemory
                     (''Merged PR #'' @ decimal (the prNumber) @ '': '' @ [CHR 0x22]
                      @ title iterationPlan @ [CHR 0x22] @ '' '' @ [CHR 0x97]
                      @ '' CI passed and change is now on main.''))
                   (r_storeMerged env)) (\<lambda>_.
             bind (call GetCoverage (r_getCoverage env)) (\<lambda>coverage'.
             if truthy coverage'
             then call (StorePastMemory (''Post-merge coverage report:\<newline>'' @ the coverage'))
                    (r_storeCoverage env)
             else return ()))))
           else return ())
       (\<lambda>_. return (merged, prNumber, outcome, iterationPlan, branchName)))
      (\<lambda>_. gated)"
      unfolding v prod.case by (rule valid_merge)
  qed
  show ?thesis
    unfolding tryBlock_def
    by (intro valid_bind_gated [OF valid_call] tail; simp)
qed

lemma valid_iterate: "valid gated (iterate env) (\<lambda>_. gated)"
proof -
  have t: "valid gated (tryFinally (tryBlock env) (call ResetWorkspace (r_resetWorkspace env)))
             (\<lambda>v tr. gated tr \<and> True)"
    by (rule valid_tryFinally) (simp_all add: valid_tryBlock valid_call)
  have t': "valid gated (tryFinally (tryBlock env) (call ResetWorkspace (r_resetWorkspace env)))
             (\<lambda>_. gated)"
    by (rule valid_weaken [OF t]) simp_all
  have failed: "valid gated
      (if \<not> merged
           then
             let planTitle = title iterationPlan in
             (case prNumber of
                Some n \<Rightarrow>
                  bind (call (ClosePR n) (r_closePR env)) (\<lambda>_.
                  bind (catchIgnore
                          (call (DeleteRemoteBranch branchName) (r_deleteBranchClosed env)))
                    (\<lambda>_.
                  call (StorePastMemory
                          (''Closed PR #'' @ decimal n @ '': '' @ [CHR 0x22] @ planTitle
                           @ [CHR 0x22] @ '' '' @ [CHR 0x97] @ '' '' @ outcome))
                       (r_storeFailed env)))
              | None \<Rightarrow>
                  call (StorePastMemory
                          (''Gave up on '' @ [CHR 0x22] @ planTitle @ [CHR 0x22] @ '' ''
                           @ [CHR 0x97] @ '' '' @ outcome))
                       (r_storeFailed env))
           else return ()) (\<lambda>_. gated)" for merged iterationPlan prNumber branchName outcome
  proof (cases prNumber)
    case None
    then show ?thesis
      unfolding Let_def by (simp only: option.case) (intro valid_if valid_call valid_return'; simp)
  next
    case (Some n)
    have d: "valid gated
      (catchIgnore (call (DeleteRemoteBranch branchName) (r_deleteBranchClosed env)))
      (\<lambda>_. gated)"
      by (intro valid_catchIgnore valid_call) simp
    show ?thesis
      unfolding Let_def Some
      by (simp only: option.case)
         (intro valid_if valid_bind_gated [OF valid_call] valid_bind_gated [OF d] valid_call
            valid_return'; simp)
  qed
  have rest: "valid gated
     (case v of (merged, prNumber, outcome, iterationPlan, branchName) \<Rightarrow>
     bind (if \<not> merged
           then
             let planTitle = title iterationPlan in
             (case prNumber of
                Some n \<Rightarrow>
                  bind (call (ClosePR n) (r_closePR env)) (\<lambda>_.
                  bind (catchIgnore
                          (call (DeleteRemoteBranch branchName) (r_deleteBranchClosed env)))
                    (\<lambda>_.
                  call (StorePastMemory
                          (''Closed PR #'' @ decimal n @ '': '' @ [CHR 0x22] @ planTitle
                           @ [CHR 0x22] @ '' '' @ [CHR 0x97] @ '' '' @ outcome))
                       (r_storeFailed env)))
              | None \<Rightarrow>
                  call (StorePastMemory
                          (''Gave up on '' @ [CHR 0x22] @ planTitle @ [CHR 0x22] @ '' ''
                           @ [CHR 0x97] @ '' '' @ outcome))
                       (r_storeFailed env))
           else return ())
       (\<lambda>_.
     bind (call (ReflectCall outcome) (r_reflect env)) (\<lambda>reflection.
     bind (call (StorePastMemory (''Self-reflection: '' @ reflection)) (r_storeReflection env))
       (\<lambda>_.
     bind (call WriteIterationLog (r_writeIterationLog env)) (\<lambda>_.
     return merged))))) (\<lambda>_. gated)" for v :: "bool \<times> nat option \<times> string \<times> Plan \<times> string"
  proof -
    obtain merged prNumber outcome iterationPlan branchName
      where v: "v = (merged, prNumber, outcome, iterationPlan, branchName)"
      by (cases v) auto
    show ?thesis
      unfolding v prod.case
      by (intro valid_bind_gated [OF failed] valid_bind_gated [OF valid_call] valid_return'; simp)
  qed
  show ?thesis
    unfolding iterate_def by (rule valid_bind_gated [OF t' rest])
qed

text \<open>
  Claim C6. In the sequence of calls of one iteration, whatever the collaborators return or
  throw and however far the iteration gets, the call made immediately before every
  \<open>mergePR\<close> is an \<open>awaitChecks\<close> that resolved with \<open>passed = true\<close>.
\<close>

theorem merge_gated:
  assumes "fst (iterate env []) = before @ MergePR n # after"
  shows "\<exists>result before'. before = before' @ [AwaitChecks (Some result)] \<and> passed result"
proof -
  obtain tr r where i: "iterate env [] = (tr, r)" by (cases "iterate env []")
  from validD [OF valid_iterate gated_Nil i] have "gated tr" by (cases r) auto
  with assms i show ?thesis unfolding gated_def by auto
qed

lemmas io_defs = iterate_def tryBlock_def bind_def call_def return_def tryFinally_def
  catchIgnore_def tryCatch_def Let_def

theorem merge_gated_witness:
  "iterate
     \<lparr>r_snapshotCodebase = Some (), r_getContext = Some ''ctx'', r_getRecentLog = Some ''log'',
       r_plan = Some \<lparr>title = ''Add greet'', description = ''adds greet''\<rparr>,
       r_storePlanned = Some (), r_createBranch = Some ''seedgpt/add-greet'',
       r_createPatch = Some [Create ''src/greet.ts'' ''export const g=()=>1''],
       r_commitAndPush = Some (), r_openPR = Some 7,
       r_rounds =
         [\<lparr>r_awaitChecks = Some \<lparr>passed = False, error = Some ''Tests failed''\<rparr>,
           r_exhausted = False, r_storeCiFailed = Some (),
           r_fixPatch = Some [Replace ''src/greet.ts'' ''=>1'' ''=>2''], r_pushFix = Some ()\<rparr>,
          \<lparr>r_awaitChecks = Some \<lparr>passed = True, error = None\<rparr>,
           r_exhausted = False, r_storeCiFailed = Some (),
           r_fixPatch = Some [], r_pushFix = Some ()\<rparr>],
       r_mergePR = Some (), r_deleteBranchMerged = None, r_storeMerged = Some (),
       r_getCoverage = Some None, r_storeCoverage = Some (), r_resetWorkspace = Some (),
       r_closePR = Some (), r_deleteBranchClosed = Some (), r_storeFailed = Some (),
       r_reflect = Some ''went well'', r_storeReflection = Some (),
       r_writeIterationLog = Some ()\<rparr> []
   = ([SnapshotCodebase, GetContext, GetRecentLog, PlanCall ''ctx'' ''log'',
        StorePastMemory (''Planned change '' @ [CHR 0x22] @ ''Add greet'' @ [CHR 0x22]
                         @ '': adds greet''),
        CreateBranch ''Add greet'', CreatePatch, CommitAndPush ''Add greet'',
        OpenPR ''seedgpt/add-greet'' ''Add greet'' ''adds greet'',
        AwaitChecks (Some \<lparr>passed = False, error = Some ''Tests failed''\<rparr>),
        StorePastMemory (''CI failed for '' @ [CHR 0x22] @ ''Add greet'' @ [CHR 0x22]
                         @ '' (PR #'' @ decimal 7 @ ''): Tests failed''),
        FixPatch ''Tests failed'', CommitAndPush ''fix: Add greet'',
        AwaitChecks (Some \<lparr>passed = True, error = None\<rparr>)]
      @ MergePR 7
      # [DeleteRemoteBranch ''seedgpt/add-greet'',
        StorePastMemory (''Merged PR #'' @ decimal 7 @ '': '' @ [CHR 0x22] @ ''Add greet''
                         @ [CHR 0x22] @ '' '' @ [CHR 0x97]
                         @ '' CI passed and change is now on main.''),
        GetCoverage, ResetWorkspace,
        ReflectCall (''PR #'' @ decimal 7 @ '' merged successfully.''),
        StorePastMemory ''Self-reflection: went well'', WriteIterationLog], Value True)
   \<and> (\<exists>result before'.
       [SnapshotCodebase, GetContext, GetRecentLog, PlanCall ''ctx'' ''log'',
        StorePastMemory (''Planned change '' @ [CHR 0x22] @ ''Add greet'' @ [CHR 0x22]
                         @ '': adds greet''),
        CreateBranch ''Add greet'', CreatePatch, CommitAndPush ''Add greet'',
        OpenPR ''seedgpt/add-greet'' ''Add greet'' ''adds greet'',
        AwaitChecks (Some \<lparr>passed = False, error = Some ''Tests failed''\<rparr>),
        StorePastMemory (''CI failed for '' @ [CHR 0x22] @ ''Add greet'' @ [CHR 0x22]
                         @ '' (PR #'' @ decimal 7 @ ''): Tests failed''),
        FixPatch ''Tests failed'', CommitAndPush ''fix: Add greet'',
        AwaitChecks (Some \<lparr>passed = True, error = None\<rparr>)] = before' @ [AwaitChecks (Some result)] \<and> passed result)"
proof -
  have run: "iterate
     \<lparr>r_snapshotCodebase = Some (), r_getContext = Some ''ctx'', r_getRecentLog = Some ''log'',
       r_plan = Some \<lparr>title = ''Add greet'', description = ''adds greet''\<rparr>,
       r_storePlanned = Some (), r_createBranch = Some ''seedgpt/add-greet'',
       r_createPatch = Some [Create ''src/greet.ts'' ''export const g=()=>1''],
       r_commitAndPush = Some (), r_openPR = Some 7,
       r_rounds =
         [\<lparr>r_awaitChecks = Some \<lparr>passed = False, error = Some ''Tests failed''\<rparr>,
           r_exhausted = False, r_storeCiFailed = Some (),
           r_fixPatch = Some [Replace ''src/greet.ts'' ''=>1'' ''=>2''], r_pushFix = Some ()\<rparr>,
          \<lparr>r_awaitChecks = Some \<lparr>passed = True, error = None\<rparr>,
           r_exhausted = False, r_storeCiFailed = Some (),
           r_fixPatch = Some [], r_pushFix = Some ()\<rparr>],
       r_mergePR = Some (), r_deleteBranchMerged = None, r_storeMerged = Some (),
       r_getCoverage = Some None, r_storeCoverage = Some (), r_resetWorkspace = Some (),
       r_closePR = Some (), r_deleteBranchClosed = Some (), r_storeFailed = Some (),
       r_reflect = Some ''went well'', r_storeReflection = Some (),
       r_writeIterationLog = Some ()\<rparr> []
   = ([SnapshotCodebase, GetContext, GetRecentLog, PlanCall ''ctx'' ''log'',
        StorePastMemory (''Planned change '' @ [CHR 0x22] @ ''Add greet'' @ [CHR 0x22]
                         @ '': adds greet''),
        CreateBranch ''Add greet'', CreatePatch, CommitAndPush ''Add greet'',
        OpenPR ''seedgpt/add-greet'' ''Add greet'' ''adds greet'',
        AwaitChecks (Some \<lparr>passed = False, error = Some ''Tests failed''\<rparr>),
        StorePastMemory (''CI failed for '' @ [CHR 0x22] @ ''Add greet'' @ [CHR 0x22]
                         @ '' (PR #'' @ decimal 7 @ ''): Tests failed''),
        FixPatch ''Tests failed'', CommitAndPush ''fix: Add greet'',
        AwaitChecks (Some \<lparr>passed = True, error = None\<rparr>)]
      @ MergePR 7
      # [DeleteRemoteBranch ''seedgpt/add-greet'',
        StorePastMemory (''Merged PR #'' @ decimal 7 @ '': '' @ [CHR 0x22] @ ''Add greet''
                         @ [CHR 0x22] @ '' '' @ [CHR 0x97]
                         @ '' CI passed and change is now on main.''),
        GetCoverage, ResetWorkspace,
        ReflectCall (''PR #'' @ decimal 7 @ '' merged successfully.''),
        StorePastMemory ''Self-reflection: went well'', WriteIterationLog], Value True)"
    by (simp add: io_defs)
  then have "fst (iterate
     \<lparr>r_snapshotCodebase = Some (), r_getContext = Some ''ctx'', r_getRecentLog = Some ''log'',
       r_plan = Some \<lparr>title = ''Add greet'', description = ''adds greet''\<rparr>,
       r_storePlanned = Some (), r_createBranch = Some ''seedgpt/add-greet'',
       r_createPatch = Some [Create ''src/greet.ts'' ''export const g=()=>1''],
       r_commitAndPush = Some (), r_openPR = Some 7,
       r_rounds =
         [\<lparr>r_awaitChecks = Some \<lparr>passed = False, error = Some ''Tests failed''\<rparr>,
           r_exhausted = False, r_storeCiFailed = Some (),
           r_fixPatch = Some [Replace ''src/greet.ts'' ''=>1'' ''=>2''], r_pushFix = Some ()\<rparr>,
          \<lparr>r_awaitChecks = Some \<lparr>passed = True, error = None\<rparr>,
           r_exhausted = False, r_storeCiFailed = Some (),
           r_fixPatch = Some [], r_pushFix = Some ()\<rparr>],
       r_mergePR = Some (), r_deleteBranchMerged = None, r_storeMerged = Some (),
       r_getCoverage = Some None, r_storeCoverage = Some (), r_resetWorkspace = Some (),
       r_closePR = Some (), r_deleteBranchClosed = Some (), r_storeFailed = Some (),
       r_reflect = Some ''went well'', r_storeReflection = Some (),
       r_writeIterationLog = Some ()\<rparr> [])
   = [SnapshotCodebase, GetContext, GetRecentLog, PlanCall ''ctx'' ''log'',
        StorePastMemory (''Planned change '' @ [CHR 0x22] @ ''Add greet'' @ [CHR 0x22]
                         @ '': adds greet''),
        CreateBranch ''Add greet'', CreatePatch, CommitAndPush ''Add greet'',
        OpenPR ''seedgpt/add-greet'' ''Add greet'' ''adds greet'',
        AwaitChecks (Some \<lparr>passed = False, error = Some ''Tests failed''\<rparr>),
        StorePastMemory (''CI failed for '' @ [CHR 0x22] @ ''Add greet'' @ [CHR 0x22]
                         @ '' (PR #'' @ decimal 7 @ ''): Tests failed''),
        FixPatch ''Tests failed'', CommitAndPush ''fix: Add greet'',
        AwaitChecks (Some \<lparr>passed = True, error = None\<rparr>)]
      @ MergePR 7
      # [DeleteRemoteBranch ''seedgpt/add-greet'',
        StorePastMemory (''Merged PR #'' @ decimal 7 @ '': '' @ [CHR 0x22] @ ''Add greet''
                         @ [CHR 0x22] @ '' '' @ [CHR 0x97]
                         @ '' CI passed and change is now on main.''),
        GetCoverage, ResetWorkspace,
        ReflectCall (''PR #'' @ decimal 7 @ '' merged successfully.''),
        StorePastMemory ''Self-reflection: went well'', WriteIterationLog]"
    by simp
  from merge_gated [OF this] run show ?thesis by blast
qed

subsection \<open>The fallback of recall\<close>

lemma regexSpecial_syntaxCharacter: "regexSpecial c = syntaxCharacter c"
  by (auto simp: regexSpecial_def syntaxCharacter_def)

lemma literalOf_Cons_plain:
  "\<not> syntaxCharacter c \<Longrightarrow> literalOf (c # rest) = map_option ((#) c) (literalOf rest)"
  by (cases rest) (auto simp: syntaxCharacter_def)

lemma literalOf_escaped:
  "syntaxCharacter d \<Longrightarrow> literalOf (backslash # d # rest) = map_option ((#) d) (literalOf rest)"
  by simp

lemma literalOf_escapeRegex: "literalOf (escapeRegex query) = Some query"
proof (induction query)
  case Nil
  show ?case by (simp add: escapeRegex_def)
next
  case (Cons c query)
  have IH: "literalOf (escapeRegex query) = Some query" by (rule Cons.IH)
  show ?case
  proof (cases "regexSpecial c")
    case True
    then have "escapeRegex (c # query) = backslash # c # escapeRegex query"
      by (simp add: escapeRegex_def)
    moreover from True have "syntaxCharacter c"
      by (simp add: regexSpecial_syntaxCharacter)
    ultimately show ?thesis
      using IH by (simp add: literalOf_escaped del: literalOf.simps)
  next
    case False
    then have "escapeRegex (c # query) = c # escapeRegex query"
      by (simp add: escapeRegex_def)
    moreover from False have "\<not> syntaxCharacter c"
      by (simp add: regexSpecial_syntaxCharacter)
    ultimately show ?thesis
      using IH by (simp add: literalOf_Cons_plain del: literalOf.simps)
  qed
qed

text \<open>
  Claim C9. Whatever characters the query contains, the escaped query is a pattern made of
  pattern characters and identity escapes only, so constructing the regular expression
  cannot fail, and the literal it denotes is the query itself. The test of the fallback on a
  string therefore holds exactly when the query occurs in the string as a substring, up to
  case, and the fallback returns the five newest documents whose summary or content
  contains the query in that sense.
\<close>

theorem recall_fallback_literal:
  "literalOf (escapeRegex query) = Some query
   \<and> regexTest canonicalize (escapeRegex query) s
       = Some (\<exists>i. occursAt (map canonicalize s) (map canonicalize query) i)
   \<and> regexFallback canonicalize store query
       = Some (take 5 (sortDesc (filter
           (\<lambda>m. (\<exists>i. occursAt (map canonicalize (summary m)) (map canonicalize query) i)
                \<or> (\<exists>i. occursAt (map canonicalize (content m)) (map canonicalize query) i))
           store)))"
proof -
  have m: "matchesIgnoringCase canonicalize query t
             = (\<exists>i. occursAt (map canonicalize t) (map canonicalize query) i)" for t
    unfolding matchesIgnoringCase_def list_ex_iff
    by (auto simp: occursAt_def simp del: upt_Suc)
  have t: "regexTest canonicalize (escapeRegex query) t
            = Some (\<exists>i. occursAt (map canonicalize t) (map canonicalize query) i)" for t
    by (simp add: regexTest_def literalOf_escapeRegex m)
  show ?thesis
    by (simp add: literalOf_escapeRegex t m regexFallback_def Let_def)
qed

subsection \<open>Cost of an exchange\<close>

text \<open>
  Claim C7. For every pricing table, model id and token usage, with or without cache read
  and cache write counts, the cost of a batch request is half the cost of the same
  request without batch. The lemmas after the theorem are the expectations of
  \<open>Generated.test.ts\<close>.
\<close>

theorem computeCost_batch_half:
  "computeCost table defaultPricing modelId usage True
     = (1 / 2) * computeCost table defaultPricing modelId usage False"
  by (simp add: computeCost_def Let_def)

lemma computeCost_test_sonnet:
  "computeCost testPricing d ''claude-sonnet-4-6''
     \<lparr>input_tokens = 1000000, output_tokens = 1000000, cache_read_input_tokens = None,
      cache_creation_input_tokens = None, cache_creation = None\<rparr> False = 3 + 15"
  by (simp add: computeCost_def testPricing_def orZero_def)

lemma computeCost_test_default:
  "computeCost testPricing
     \<lparr>inputPrice = 5, outputPrice = 25, cacheWrite5mPrice = w5, cacheWrite1hPrice = w1,
      cacheReadPrice = cr\<rparr> ''unknown-model''
     \<lparr>input_tokens = 1000000, output_tokens = 1000000, cache_read_input_tokens = None,
      cache_creation_input_tokens = None, cache_creation = None\<rparr> False = 5 + 25"
  by (simp add: computeCost_def testPricing_def orZero_def)

lemma computeCost_test_cache_read:
  "computeCost testPricing d ''claude-sonnet-4-6''
     \<lparr>input_tokens = 1000000, output_tokens = 0, cache_read_input_tokens = Some 800000,
      cache_creation_input_tokens = Some 0, cache_creation = None\<rparr> False
     = (200000 * 3 + 800000 * (3 / 10)) / 1000000"
  by (simp add: computeCost_def testPricing_def orZero_def)

lemma computeCost_test_cache_write:
  "computeCost testPricing d ''claude-sonnet-4-6''
     \<lparr>input_tokens = 1000000, output_tokens = 0, cache_read_input_tokens = Some 0,
      cache_creation_input_tokens = Some 500000, cache_creation = None\<rparr> False
     = (500000 * 3 + 500000 * (15 / 4)) / 1000000"
  by (simp add: computeCost_def testPricing_def orZero_def)

lemma computeCost_test_breakdown:
  "computeCost testPricing d ''claude-sonnet-4-6''
     \<lparr>input_tokens = 1000000, output_tokens = 0, cache_read_input_tokens = Some 0,
      cache_creation_input_tokens = Some 500000,
      cache_creation = Some \<lparr>ephemeral_5m_input_tokens = Some 200000,
                              ephemeral_1h_input_tokens = Some 300000\<rparr>\<rparr> False
     = (500000 * 3 + 200000 * (15 / 4) + 300000 * 6) / 1000000"
  by (simp add: computeCost_def testPricing_def orZero_def)

lemma computeCost_test_mixed:
  "computeCost testPricing d ''claude-haiku-4-5''
     \<lparr>input_tokens = 1000000, output_tokens = 100000, cache_read_input_tokens = Some 300000,
      cache_creation_input_tokens = Some 200000,
      cache_creation = Some \<lparr>ephemeral_5m_input_tokens = Some 150000,
                              ephemeral_1h_input_tokens = Some 50000\<rparr>\<rparr> False
     = (500000 * 1 + 150000 * (5 / 4) + 50000 * 2 + 300000 * (1 / 10) + 100000 * 5) / 1000000"
  by (simp add: computeCost_def testPricing_def orZero_def)

lemma computeCost_test_batch:
  "computeCost testPricing d ''claude-sonnet-4-6''
     \<lparr>input_tokens = 1000000, output_tokens = 1000000, cache_read_input_tokens = None,
      cache_creation_input_tokens = None, cache_creation = None\<rparr> True = 9"
  by (simp add: computeCost_def testPricing_def orZero_def)

end
